theory Spec2Isabelle
  imports Complex_Main "HOL-Library.AList" "HOL-Library.Sublist"
begin

section \<open>Python values, exceptions and built-ins\<close>

text \<open>
  Configuration values, header values and data-id values are Python scalars and lists.
  A \<open>dict\<close> with string keys is an association list in insertion order; \<open>d[k]\<close> and
  \<open>k in d\<close> are \<open>map_of d k\<close>, and \<open>d[k] = v\<close> is \<open>AList.update k v d\<close> (an existing
  key keeps its place, a new key goes to the end). A Python \<open>float\<close> is modelled by
  the real number it denotes (no NaN, no infinities).
\<close>

datatype pyval =
    PNone
  | PBool bool
  | PInt int
  | PFloat real
  | PStr string
  | PList "pyval list"

datatype pytype = TNone | TBool | TInt | TFloat | TStr | TList

fun pytype_of :: "pyval \<Rightarrow> pytype" where
  "pytype_of PNone = TNone"
| "pytype_of (PBool _) = TBool"
| "pytype_of (PInt _) = TInt"
| "pytype_of (PFloat _) = TFloat"
| "pytype_of (PStr _) = TStr"
| "pytype_of (PList _) = TList"

text \<open>
  An exception is its class and its message (for \<open>KeyError\<close>, the key). The messages
  of exceptions raised inside built-ins are written without their quotation marks.
\<close>

datatype error =
    KeyError string
  | TypeError string
  | ValueError string
  | RuntimeError string
  | AttributeError string
  | OverflowError string
  | UnboundLocalError string

text \<open>
  The parts of the Python built-ins that are left open: the text of a float or a list,
  parsing a string as a number (\<open>None\<close> where Python raises \<open>ValueError\<close>), rounding
  an integer to a float (\<open>None\<close> where Python raises \<open>OverflowError\<close>), the \<open>repr\<close>
  of a set of strings, and the printf-style \<open>%\<close> operator on templates outside the
  fragment modelled below. Every theorem holds for all of them.
\<close>

record builtins =
  str_of :: "pyval \<Rightarrow> string"
  int_of_str :: "string \<Rightarrow> int option"
  float_of_str :: "string \<Rightarrow> real option"
  float_of_int :: "int \<Rightarrow> real option"
  repr_set :: "string set \<Rightarrow> string"
  format_other :: "string \<Rightarrow> string \<Rightarrow> error + string"

text \<open>
  \<open>str(v)\<close>, which is also how an f-string renders \<open>{v}\<close>: decimal digits for an
  integer, the value itself for a string; the text of a float or a list is left to
  \<open>str_of\<close>.
\<close>

definition digit_char :: "nat \<Rightarrow> char" where
  "digit_char d = ''0123456789'' ! d"

fun show_nat :: "nat \<Rightarrow> string" where
  "show_nat n = (if n < 10 then [digit_char n] else show_nat (n div 10) @ [digit_char (n mod 10)])"

declare show_nat.simps [simp del]

definition show_int :: "int \<Rightarrow> string" where
  "show_int i = (if i < 0 then CHR ''-'' # show_nat (nat (- i)) else show_nat (nat i))"

fun py_format :: "builtins \<Rightarrow> pyval \<Rightarrow> string" where
  "py_format B (PStr s) = s"
| "py_format B (PInt n) = show_int n"
| "py_format B (PBool b) = (if b then ''True'' else ''False'')"
| "py_format B PNone = ''None''"
| "py_format B (PFloat f) = str_of B (PFloat f)"
| "py_format B (PList xs) = str_of B (PList xs)"

text \<open>The constructors \<open>str(v)\<close>, \<open>int(v)\<close>, \<open>float(v)\<close>, \<open>list(v)\<close>, \<open>bool(v)\<close>.\<close>

definition py_str :: "builtins \<Rightarrow> pyval \<Rightarrow> error + pyval" where
  "py_str B v = Inr (PStr (py_format B v))"

fun py_int :: "builtins \<Rightarrow> pyval \<Rightarrow> error + pyval" where
  "py_int B (PInt n) = Inr (PInt n)"
| "py_int B (PBool b) = Inr (PInt (if b then 1 else 0))"
| "py_int B (PFloat f) = Inr (PInt (if 0 \<le> f then \<lfloor>f\<rfloor> else \<lceil>f\<rceil>))"
| "py_int B (PStr s) =
     (case int_of_str B s of
        None \<Rightarrow> Inl (ValueError (''invalid literal for int() with base 10: '' @ s))
      | Some n \<Rightarrow> Inr (PInt n))"
| "py_int B PNone =
     Inl (TypeError ''int() argument must be a string, a bytes-like object or a real number, not NoneType'')"
| "py_int B (PList _) =
     Inl (TypeError ''int() argument must be a string, a bytes-like object or a real number, not list'')"

fun py_float :: "builtins \<Rightarrow> pyval \<Rightarrow> error + pyval" where
  "py_float B (PFloat f) = Inr (PFloat f)"
| "py_float B (PBool b) = Inr (PFloat (if b then 1 else 0))"
| "py_float B (PInt n) =
     (case float_of_int B n of
        None \<Rightarrow> Inl (OverflowError ''int too large to convert to float'')
      | Some f \<Rightarrow> Inr (PFloat f))"
| "py_float B (PStr s) =
     (case float_of_str B s of
        None \<Rightarrow> Inl (ValueError (''could not convert string to float: '' @ s))
      | Some f \<Rightarrow> Inr (PFloat f))"
| "py_float B PNone =
     Inl (TypeError ''float() argument must be a string or a real number, not NoneType'')"
| "py_float B (PList _) =
     Inl (TypeError ''float() argument must be a string or a real number, not list'')"

fun py_list :: "pyval \<Rightarrow> error + pyval" where
  "py_list (PList xs) = Inr (PList xs)"
| "py_list (PStr s) = Inr (PList (map (\<lambda>c. PStr [c]) s))"
| "py_list PNone = Inl (TypeError ''NoneType object is not iterable'')"
| "py_list (PBool _) = Inl (TypeError ''bool object is not iterable'')"
| "py_list (PInt _) = Inl (TypeError ''int object is not iterable'')"
| "py_list (PFloat _) = Inl (TypeError ''float object is not iterable'')"

fun py_bool :: "pyval \<Rightarrow> bool" where
  "py_bool PNone = False"
| "py_bool (PBool b) = b"
| "py_bool (PInt n) = (n \<noteq> 0)"
| "py_bool (PFloat f) = (f \<noteq> 0)"
| "py_bool (PStr s) = (s \<noteq> [])"
| "py_bool (PList xs) = (xs \<noteq> [])"

text \<open>\<open>t(v)\<close> for a type object \<open>t\<close>, as in \<open>type(schema[key])(entry[key])\<close>.\<close>

fun construct :: "builtins \<Rightarrow> pytype \<Rightarrow> pyval \<Rightarrow> error + pyval" where
  "construct B TStr v = py_str B v"
| "construct B TInt v = py_int B v"
| "construct B TFloat v = py_float B v"
| "construct B TList v = py_list v"
| "construct B TBool v = Inr (PBool (py_bool v))"
| "construct B TNone v = Inl (TypeError ''NoneType takes no arguments'')"

section \<open>Compression recipes: \<open>FitsExposureFormatter.validateWriteRecipes\<close>\<close>

text \<open>
  The four nesting levels of the recipes, each a \<open>dict\<close> as the docstring declares:
  recipe name, plane, settings section, field.
\<close>

type_synonym settings = "(string \<times> pyval) list"
type_synonym planecfg = "(string \<times> settings) list"
type_synonym recipe = "(string \<times> planecfg) list"
type_synonym recipes = "(string \<times> recipe) list"

definition compressionSchema :: settings where
  "compressionSchema =
     [(''algorithm'', PStr ''NONE''),
      (''rows'', PInt 1),
      (''columns'', PInt 0),
      (''quantizeLevel'', PFloat 0)]"

definition scalingSchema :: settings where
  "scalingSchema =
     [(''algorithm'', PStr ''NONE''),
      (''bitpix'', PInt 0),
      (''maskPlanes'', PList [PStr ''NO_DATA'']),
      (''seed'', PInt 0),
      (''quantizeLevel'', PFloat 4),
      (''quantizePad'', PFloat 5),
      (''fuzz'', PBool True),
      (''bscale'', PFloat 1),
      (''bzero'', PFloat 0)]"

definition planes :: "string list" where
  "planes = [''image'', ''mask'', ''variance'']"

definition unrecognized_keys :: "(string \<times> 'a) list \<Rightarrow> string list \<Rightarrow> string set" where
  "unrecognized_keys entry allowed = set (map fst entry) - set allowed"

definition unrecognized_message :: "builtins \<Rightarrow> string \<Rightarrow> string set \<Rightarrow> string" where
  "unrecognized_message B description unrecognized =
     ''Unrecognized entries when parsing image compression recipe '' @ description @ '': ''
       @ repr_set B unrecognized"

definition checkUnrecognized ::
  "builtins \<Rightarrow> (string \<times> 'a) list \<Rightarrow> string list \<Rightarrow> string \<Rightarrow> error + unit" where
  "checkUnrecognized B entry allowed description =
     (let unrecognized = unrecognized_keys entry allowed
      in if unrecognized \<noteq> {}
         then Inl (RuntimeError (unrecognized_message B description unrecognized))
         else Inr ())"

text \<open>
  The innermost loop \<open>for key in schema\<close> over a present section, with
  \<open>value = type(schema[key])(entry[key]) if key in entry else schema[key]\<close> as
  \<open>field_value\<close>. The schema's keys are distinct, so each assignment
  \<open>np[settings][key] = value\<close> appends.
\<close>

definition field_value :: "builtins \<Rightarrow> settings \<Rightarrow> string \<Rightarrow> pyval \<Rightarrow> error + pyval" where
  "field_value B entry key dflt =
     (case map_of entry key of
        Some raw \<Rightarrow> construct B (pytype_of dflt) raw
      | None \<Rightarrow> Inr dflt)"

fun validate_fields :: "builtins \<Rightarrow> settings \<Rightarrow> settings \<Rightarrow> error + settings" where
  "validate_fields B entry [] = Inr []"
| "validate_fields B entry ((key, dflt) # schema) =
     (case field_value B entry key dflt of
        Inl e \<Rightarrow> Inl e
      | Inr v \<Rightarrow>
          (case validate_fields B entry schema of
             Inl e \<Rightarrow> Inl e
           | Inr rest \<Rightarrow> Inr ((key, v) # rest)))"

text \<open>One turn of \<open>for settings, schema in (...)\<close>: the value of \<open>np[settings]\<close>.\<close>

definition validate_settings ::
  "builtins \<Rightarrow> string \<Rightarrow> string \<Rightarrow> planecfg \<Rightarrow> string \<Rightarrow> settings \<Rightarrow> error + settings" where
  "validate_settings B name plane p sect schema =
     (case map_of p sect of
        None \<Rightarrow> Inr schema
      | Some entry \<Rightarrow>
          (case checkUnrecognized B entry (map fst schema)
                  (name @ ''->'' @ plane @ ''->'' @ sect) of
             Inl e \<Rightarrow> Inl e
           | Inr _ \<Rightarrow> validate_fields B entry schema))"

text \<open>One turn of \<open>for plane in (...)\<close>: \<open>recipes[name][plane]\<close> raises \<open>KeyError\<close> when absent.\<close>

definition validate_plane :: "builtins \<Rightarrow> string \<Rightarrow> recipe \<Rightarrow> string \<Rightarrow> error + planecfg" where
  "validate_plane B name r plane =
     (case map_of r plane of
        None \<Rightarrow> Inl (KeyError plane)
      | Some p \<Rightarrow>
          (case checkUnrecognized B p [''compression'', ''scaling''] (name @ ''->'' @ plane) of
             Inl e \<Rightarrow> Inl e
           | Inr _ \<Rightarrow>
               (case validate_settings B name plane p ''compression'' compressionSchema of
                  Inl e \<Rightarrow> Inl e
                | Inr c \<Rightarrow>
                    (case validate_settings B name plane p ''scaling'' scalingSchema of
                       Inl e \<Rightarrow> Inl e
                     | Inr s \<Rightarrow> Inr [(''compression'', c), (''scaling'', s)]))))"

fun validate_planes :: "builtins \<Rightarrow> string \<Rightarrow> recipe \<Rightarrow> string list \<Rightarrow> error + recipe" where
  "validate_planes B name r [] = Inr []"
| "validate_planes B name r (plane # ps) =
     (case validate_plane B name r plane of
        Inl e \<Rightarrow> Inl e
      | Inr np \<Rightarrow>
          (case validate_planes B name r ps of
             Inl e \<Rightarrow> Inl e
           | Inr rest \<Rightarrow> Inr ((plane, np) # rest)))"

definition validate_recipe :: "builtins \<Rightarrow> string \<Rightarrow> recipe \<Rightarrow> error + recipe" where
  "validate_recipe B name r =
     (case checkUnrecognized B r planes name of
        Inl e \<Rightarrow> Inl e
      | Inr _ \<Rightarrow> validate_planes B name r planes)"

text \<open>
  The loop \<open>for name in recipes\<close>, reading \<open>recipes[name]\<close>: the items of the dict in
  order. The names of a dict are distinct, so each \<open>validated[name] = {}\<close> appends.
\<close>

fun validate_all :: "builtins \<Rightarrow> recipes \<Rightarrow> error + recipes" where
  "validate_all B [] = Inr []"
| "validate_all B ((name, r) # rest) =
     (case validate_recipe B name r of
        Inl e \<Rightarrow> Inl e
      | Inr v \<Rightarrow>
          (case validate_all B rest of
             Inl e \<Rightarrow> Inl e
           | Inr vs \<Rightarrow> Inr ((name, v) # vs)))"

definition validateWriteRecipes :: "builtins \<Rightarrow> recipes option \<Rightarrow> error + recipes option" where
  "validateWriteRecipes B rs =
     (case rs of
        None \<Rightarrow> Inr None
      | Some R \<Rightarrow>
          if R = [] then Inr (Some [])
          else (case validate_all B R of
                  Inl e \<Rightarrow> Inl e
                | Inr V \<Rightarrow> Inr (Some V)))"

subsection \<open>What a validated mapping looks like\<close>

text \<open>The two settings sections with their schemas, in the order of the source's loop.\<close>

definition sections :: "(string \<times> settings) list" where
  "sections = [(''compression'', compressionSchema), (''scaling'', scalingSchema)]"

text \<open>The keys of a section with the type of each value.\<close>

definition signature :: "settings \<Rightarrow> (string \<times> pytype) list" where
  "signature s = map (\<lambda>(k, v). (k, pytype_of v)) s"

definition normalized_plane :: "planecfg \<Rightarrow> bool" where
  "normalized_plane p \<longleftrightarrow>
     map fst p = map fst sections \<and> map (signature \<circ> snd) p = map (signature \<circ> snd) sections"

definition normalized_recipe :: "recipe \<Rightarrow> bool" where
  "normalized_recipe r \<longleftrightarrow> map fst r = planes \<and> list_all (normalized_plane \<circ> snd) r"

definition normalized :: "recipes \<Rightarrow> bool" where
  "normalized V \<longleftrightarrow> list_all (normalized_recipe \<circ> snd) V"

text \<open>\<open>r[plane][sect][key]\<close> where all three keys are present.\<close>

definition field_of :: "recipe \<Rightarrow> string \<Rightarrow> string \<Rightarrow> string \<Rightarrow> pyval option" where
  "field_of r plane sect key =
     (case map_of r plane of
        None \<Rightarrow> None
      | Some p \<Rightarrow> (case map_of p sect of None \<Rightarrow> None | Some s \<Rightarrow> map_of s key))"

text \<open>
  The entries that \<open>checkUnrecognized\<close> is called on, in the order of the traversal,
  each with the description passed for it and its set of unrecognized keys.
\<close>

definition sites_settings ::
  "string \<Rightarrow> string \<Rightarrow> planecfg \<Rightarrow> string \<times> settings \<Rightarrow> (string \<times> string set) list" where
  "sites_settings name plane p ss =
     (case map_of p (fst ss) of
        None \<Rightarrow> []
      | Some entry \<Rightarrow>
          [(name @ ''->'' @ plane @ ''->'' @ fst ss, unrecognized_keys entry (map fst (snd ss)))])"

definition sites_plane :: "string \<Rightarrow> recipe \<Rightarrow> string \<Rightarrow> (string \<times> string set) list" where
  "sites_plane name r plane =
     (case map_of r plane of
        None \<Rightarrow> []
      | Some p \<Rightarrow>
          (name @ ''->'' @ plane, unrecognized_keys p (map fst sections))
            # concat (map (sites_settings name plane p) sections))"

definition sites_recipe :: "string \<times> recipe \<Rightarrow> (string \<times> string set) list" where
  "sites_recipe nr =
     (fst nr, unrecognized_keys (snd nr) planes)
       # concat (map (sites_plane (fst nr) (snd nr)) planes)"

definition unrecognized_sites :: "recipes \<Rightarrow> (string \<times> string set) list" where
  "unrecognized_sites R = filter (\<lambda>site. snd site \<noteq> {}) (concat (map sites_recipe R))"

text \<open>A recipe that lacks one of the three planes.\<close>

definition missing_planes :: "recipe \<Rightarrow> string list" where
  "missing_planes r = filter (\<lambda>plane. map_of r plane = None) planes"

text \<open>Every raw value that is present at a schema field can be converted to the field's type.\<close>

definition coercible :: "builtins \<Rightarrow> recipes \<Rightarrow> bool" where
  "coercible B R \<longleftrightarrow>
     list_all (\<lambda>nr. list_all (\<lambda>plane. list_all (\<lambda>ss. list_all (\<lambda>kd.
         (case field_of (snd nr) plane (fst ss) (fst kd) of
            None \<Rightarrow> True
          | Some raw \<Rightarrow> \<not> isl (construct B (pytype_of (snd kd)) raw)))
       (snd ss)) sections) planes) R"

text \<open>
  The validated recipe \<open>v\<close> holds, at every field of every section of every plane,
  the schema's default where the raw recipe \<open>r\<close> has no value there (the section or
  the key is absent), and otherwise the raw value converted to the type of the default.
\<close>

definition agrees :: "builtins \<Rightarrow> recipe \<Rightarrow> recipe \<Rightarrow> bool" where
  "agrees B r v \<longleftrightarrow>
     list_all (\<lambda>plane. list_all (\<lambda>ss. list_all (\<lambda>kd.
         (case field_of v plane (fst ss) (fst kd) of
            None \<Rightarrow> False
          | Some w \<Rightarrow>
              (case field_of r plane (fst ss) (fst kd) of
                 None \<Rightarrow> w = snd kd
               | Some raw \<Rightarrow> construct B (pytype_of (snd kd)) raw = Inr w)))
       (snd ss)) sections) planes"

subsection \<open>The checks of the traversal, in order\<close>

text \<open>
  The checks that validation makes, each taken alone, listed in the order in which the
  traversal comes to them, with the error of every check that fails. The recipes are
  taken in the order of the mapping. In a recipe: the check of its plane names; then
  for \<open>image\<close>, \<open>mask\<close> and \<open>variance\<close> in turn, the lookup of the plane (with nothing more
  for a plane that is absent), the check of its section names, and for \<open>compression\<close>
  and then \<open>scaling\<close>, where present, the check of its field names and the conversion
  of every field that has a raw value, in the order of the schema.
\<close>

definition unrecognized_failure ::
  "builtins \<Rightarrow> (string \<times> 'a) list \<Rightarrow> string list \<Rightarrow> string \<Rightarrow> error list" where
  "unrecognized_failure B entry allowed description =
     (if unrecognized_keys entry allowed \<noteq> {}
      then [RuntimeError (unrecognized_message B description (unrecognized_keys entry allowed))]
      else [])"

definition field_failure :: "builtins \<Rightarrow> settings \<Rightarrow> string \<times> pyval \<Rightarrow> error list" where
  "field_failure B entry kd =
     (case map_of entry (fst kd) of
        None \<Rightarrow> []
      | Some raw \<Rightarrow>
          (case construct B (pytype_of (snd kd)) raw of Inl e \<Rightarrow> [e] | Inr _ \<Rightarrow> []))"

definition settings_failures ::
  "builtins \<Rightarrow> string \<Rightarrow> string \<Rightarrow> planecfg \<Rightarrow> string \<times> settings \<Rightarrow> error list" where
  "settings_failures B name plane p ss =
     (case map_of p (fst ss) of
        None \<Rightarrow> []
      | Some entry \<Rightarrow>
          unrecognized_failure B entry (map fst (snd ss)) (name @ ''->'' @ plane @ ''->'' @ fst ss)
            @ concat (map (field_failure B entry) (snd ss)))"

definition plane_failures :: "builtins \<Rightarrow> string \<Rightarrow> recipe \<Rightarrow> string \<Rightarrow> error list" where
  "plane_failures B name r plane =
     (case map_of r plane of
        None \<Rightarrow> [KeyError plane]
      | Some p \<Rightarrow>
          unrecognized_failure B p (map fst sections) (name @ ''->'' @ plane)
            @ concat (map (settings_failures B name plane p) sections))"

definition recipe_failures :: "builtins \<Rightarrow> string \<times> recipe \<Rightarrow> error list" where
  "recipe_failures B nr =
     unrecognized_failure B (snd nr) planes (fst nr)
       @ concat (map (plane_failures B (fst nr) (snd nr)) planes)"

definition failures :: "builtins \<Rightarrow> recipes \<Rightarrow> error list" where
  "failures B R = concat (map (recipe_failures B) R)"

text \<open>
  A result that stops at the first of the failures \<open>fs\<close>: the first failure when there
  is one, a value when there is none.
\<close>

definition stops_at :: "error + 'a \<Rightarrow> error list \<Rightarrow> bool" where
  "stops_at x fs \<longleftrightarrow> (case fs of [] \<Rightarrow> \<not> isl x | e # _ \<Rightarrow> x = Inl e)"

subsection \<open>Example recipes\<close>

text \<open>
  A raw mapping with values to convert, and what validation makes of it; a mapping with
  an unrecognized section name; a mapping whose recipe has no \<open>mask\<close> plane; a recipe
  with the plane name \<open>imag\<close> in place of \<open>image\<close>; a recipe without \<open>mask\<close> whose
  \<open>variance\<close> plane has an unrecognized section.
\<close>

definition raw_example :: recipes where
  "raw_example =
     [(''lossy'',
       [(''image'', [(''scaling'', [(''bitpix'', PFloat 8), (''fuzz'', PInt 0)])]),
        (''mask'', []),
        (''variance'', [(''compression'', [(''rows'', PBool True)])])])]"

definition validated_example :: recipes where
  "validated_example =
     [(''lossy'',
       [(''image'',
         [(''compression'', compressionSchema),
          (''scaling'',
           [(''algorithm'', PStr ''NONE''),
            (''bitpix'', PInt 8),
            (''maskPlanes'', PList [PStr ''NO_DATA'']),
            (''seed'', PInt 0),
            (''quantizeLevel'', PFloat 4),
            (''quantizePad'', PFloat 5),
            (''fuzz'', PBool False),
            (''bscale'', PFloat 1),
            (''bzero'', PFloat 0)])]),
        (''mask'', sections),
        (''variance'', sections)])]"


definition partial_example :: recipes where
  "partial_example = [(''lossy'', [(''image'', []), (''variance'', [])])]"


definition late_bogus_example :: recipes where
  "late_bogus_example = [(''r'', [(''image'', []), (''variance'', [(''bogus'', [])])])]"

section \<open>Seed derivation: \<open>FitsExposureFormatter.getImageCompressionSettings\<close>\<close>

text \<open>\<open>v == 0\<close> for a configuration value.\<close>

fun py_eq_zero :: "pyval \<Rightarrow> bool" where
  "py_eq_zero (PInt n) = (n = 0)"
| "py_eq_zero (PFloat f) = (f = 0)"
| "py_eq_zero (PBool b) = (\<not> b)"
| "py_eq_zero _ = False"

text \<open>
  \<open>hash(tuple(self.dataId.items())) % 2**31\<close>. The data id is the list of its items and
  \<open>hash\<close> is Python's; \<open>%\<close> with a positive modulus is \<open>mod\<close>.
\<close>

definition derive_seed :: "('i \<Rightarrow> int) \<Rightarrow> 'i \<Rightarrow> int" where
  "derive_seed hash dataId = hash dataId mod 2 ^ 31"

text \<open>One turn of \<open>for plane in ("image", "mask", "variance")\<close>; the recipe is updated in place.\<close>

definition set_plane_seed :: "int \<Rightarrow> string \<Rightarrow> recipe \<Rightarrow> recipe" where
  "set_plane_seed seed plane recipe =
     (case map_of recipe plane of
        None \<Rightarrow> recipe
      | Some p \<Rightarrow>
          (case map_of p ''scaling'' of
             None \<Rightarrow> recipe
           | Some scaling \<Rightarrow>
               (case map_of scaling ''seed'' of
                  None \<Rightarrow> recipe
                | Some v \<Rightarrow>
                    if py_eq_zero v
                    then AList.update plane
                           (AList.update ''scaling''
                              (AList.update ''seed'' (PInt seed) scaling) p) recipe
                    else recipe)))"

text \<open>
  The part after the recipe name is fixed. The selected recipe is an object held by
  \<open>self.writeRecipes\<close>, so the result carries the recipes as they are afterwards.
\<close>

definition select_recipe ::
  "('i \<Rightarrow> int) \<Rightarrow> recipes \<Rightarrow> 'i \<Rightarrow> string \<Rightarrow> error + recipe \<times> recipes" where
  "select_recipe hash W dataId recipeName =
     (case map_of W recipeName of
        None \<Rightarrow>
          Inl (RuntimeError (''Unrecognized recipe option given for compression: '' @ recipeName))
      | Some recipe \<Rightarrow>
          (let seed = derive_seed hash dataId;
               recipe' = fold (set_plane_seed seed) planes recipe
           in Inr (recipe', AList.update recipeName recipe' W)))"

text \<open>
  \<open>recipeName\<close> is \<open>None\<close> or a string, and \<open>not recipeName\<close> holds for \<open>None\<close> and for
  the empty string. \<open>self.writeRecipes\<close> is what \<open>validateWriteRecipes\<close> returned, so it
  can be \<open>None\<close>, on which \<open>in\<close> raises.
\<close>

definition getImageCompressionSettings ::
  "('i \<Rightarrow> int) \<Rightarrow> recipes option \<Rightarrow> 'i \<Rightarrow> string option \<Rightarrow> error + recipe \<times> recipes option" where
  "getImageCompressionSettings hash writeRecipes dataId recipeName =
     (case writeRecipes of
        None \<Rightarrow> Inl (TypeError ''argument of type NoneType is not iterable'')
      | Some W \<Rightarrow>
          (let requested = (case recipeName of
                              None \<Rightarrow> None
                            | Some n \<Rightarrow> if n = [] then None else Some n)
           in case (case requested of
                      None \<Rightarrow> if map_of W ''default'' = None then None else Some ''default''
                    | Some n \<Rightarrow> Some n) of
                None \<Rightarrow> Inr ([], Some W)
              | Some n \<Rightarrow>
                  (case select_recipe hash W dataId n of
                     Inl e \<Rightarrow> Inl e
                   | Inr (recipe, W') \<Rightarrow> Inr (recipe, Some W'))))"

section \<open>Component dispatch: \<open>FitsExposureFormatter.readComponent\<close>\<close>

definition componentMap :: "(string \<times> string \<times> bool) list" where
  "componentMap =
     [(''wcs'', ''readWcs'', False),
      (''coaddInputs'', ''readCoaddInputs'', False),
      (''psf'', ''readPsf'', False),
      (''image'', ''readImage'', True),
      (''mask'', ''readMask'', True),
      (''variance'', ''readVariance'', True),
      (''photoCalib'', ''readPhotoCalib'', False),
      (''bbox'', ''readBBox'', True),
      (''xy0'', ''readXY0'', True),
      (''metadata'', ''readMetadata'', False),
      (''filter'', ''readFilter'', False),
      (''polygon'', ''readValidPolygon'', False),
      (''apCorrMap'', ''readApCorrMap'', False),
      (''visitInfo'', ''readVisitInfo'', False),
      (''transmissionCurve'', ''readTransmissionCurve'', False),
      (''detector'', ''readDetector'', False),
      (''extras'', ''readExtraComponents'', False),
      (''exposureInfo'', ''readExposureInfo'', False)]"

text \<open>
  The file descriptor and the reader are the formatter's surroundings:
  \<open>fd_parameters\<close> is \<open>self.fileDescriptor.parameters\<close>, \<open>validateParameters\<close> the
  storage class's check, \<open>open_reader\<close> the call \<open>ExposureFitsReader(path)\<close>, whose
  result maps a method name to the bound method (\<open>getattr(reader, method, None)\<close>).
  A method takes the keyword arguments; \<open>caller()\<close> passes none.
\<close>

type_synonym parameters = "(string \<times> pyval) list"

record 'o descriptor =
  fd_parameters :: "parameters option"
  validateParameters :: "parameters \<Rightarrow> error + unit"
  open_reader :: "error + (string \<Rightarrow> (parameters \<Rightarrow> error + 'o) option)"

text \<open>
  \<open>method, hasParams = componentMap.get(component, None)\<close> unpacks \<open>None\<close> when the
  component is not in the table, which raises \<open>TypeError\<close>. The result \<open>None\<close> is a
  call that falls off the end of the function.
\<close>

definition readComponent ::
  "'o descriptor \<Rightarrow> string \<Rightarrow> parameters option \<Rightarrow> error + 'o option" where
  "readComponent fd component parameters =
     (case map_of componentMap component of
        None \<Rightarrow> Inl (TypeError ''cannot unpack non-iterable NoneType object'')
      | Some (method, hasParams) \<Rightarrow>
          if method \<noteq> [] then
            (case open_reader fd of
               Inl e \<Rightarrow> Inl e
             | Inr reader \<Rightarrow>
                 (case reader method of
                    None \<Rightarrow> Inr None
                  | Some caller \<Rightarrow>
                      (let parameters = (case parameters of
                                           None \<Rightarrow> fd_parameters fd
                                         | Some ps \<Rightarrow> Some ps);
                           parameters = (case parameters of None \<Rightarrow> [] | Some ps \<Rightarrow> ps)
                       in case validateParameters fd parameters of
                            Inl e \<Rightarrow> Inl e
                          | Inr _ \<Rightarrow>
                              (case (if hasParams \<and> parameters \<noteq> []
                                     then caller parameters else caller []) of
                                 Inl e \<Rightarrow> Inl e
                               | Inr obj \<Rightarrow> Inr (Some obj)))))
          else Inl (KeyError (''Unknown component requested: '' @ component)))"

section \<open>Curated calibrations: \<open>_read_curated_calibs.py\<close>\<close>

subsection \<open>Strings and paths\<close>

text \<open>\<open>str.lower()\<close> on ASCII letters; every other character is kept.\<close>

definition lower_char :: "char \<Rightarrow> char" where
  "lower_char c =
     (case map_of (zip ''ABCDEFGHIJKLMNOPQRSTUVWXYZ'' ''abcdefghijklmnopqrstuvwxyz'') c of
        None \<Rightarrow> c
      | Some l \<Rightarrow> l)"

definition lower :: "string \<Rightarrow> string" where
  "lower s = map lower_char s"

text \<open>\<open>v.lower()\<close> for a header value: only a string has the method.\<close>

fun str_lower :: "pyval \<Rightarrow> error + string" where
  "str_lower (PStr s) = Inr (lower s)"
| "str_lower _ = Inl (AttributeError ''object has no attribute lower'')"

text \<open>\<open>sep.join(xs)\<close>.\<close>

fun join_str :: "string \<Rightarrow> string list \<Rightarrow> string" where
  "join_str sep [] = []"
| "join_str sep [x] = x"
| "join_str sep (x # y # ys) = x @ sep @ join_str sep (y # ys)"

definition quote :: string where
  "quote = [CHR 0x27]"

text \<open>\<open>os.path.split\<close>, \<open>os.path.basename\<close> and \<open>os.path.join\<close> of \<open>posixpath\<close>.\<close>

definition path_split :: "string \<Rightarrow> string \<times> string" where
  "path_split p =
     (let tail = rev (takeWhile (\<lambda>c. c \<noteq> CHR ''/'') (rev p));
          head = rev (dropWhile (\<lambda>c. c \<noteq> CHR ''/'') (rev p))
      in (if head \<noteq> [] \<and> \<not> list_all (\<lambda>c. c = CHR ''/'') head
          then rev (dropWhile (\<lambda>c. c = CHR ''/'') (rev head))
          else head,
          tail))"

definition basename :: "string \<Rightarrow> string" where
  "basename p = rev (takeWhile (\<lambda>c. c \<noteq> CHR ''/'') (rev p))"

definition path_join :: "string \<Rightarrow> string \<Rightarrow> string" where
  "path_join a b =
     (if (case b of [] \<Rightarrow> False | c # _ \<Rightarrow> c = CHR ''/'') then b
      else if a = [] \<or> last a = CHR ''/'' then a @ b
      else a @ ''/'' @ b)"

subsection \<open>The \<open>%\<close> operator with one string argument\<close>

text \<open>
  \<open>template % arg\<close> where \<open>arg\<close> is a string, read from left to right: \<open>%s\<close> consumes
  the argument and fails when it has been consumed already, \<open>%%\<close> is a literal percent
  sign, and an unused argument fails at the end. Any other conversion is outside this
  fragment and is left to \<open>format_other\<close>.
\<close>

datatype scanned = Formatted string | Failed error | Unmodelled

fun percent_scan :: "string \<Rightarrow> string \<Rightarrow> bool \<Rightarrow> scanned" where
  "percent_scan [] arg used =
     (if used then Formatted []
      else Failed (TypeError ''not all arguments converted during string formatting''))"
| "percent_scan [c] arg used =
     (if c = CHR ''%'' then Unmodelled
      else (case percent_scan [] arg used of Formatted s \<Rightarrow> Formatted (c # s) | r \<Rightarrow> r))"
| "percent_scan (c # d # t) arg used =
     (if c \<noteq> CHR ''%'' then
        (case percent_scan (d # t) arg used of Formatted s \<Rightarrow> Formatted (c # s) | r \<Rightarrow> r)
      else if d = CHR ''s'' then
        (if used then Failed (TypeError ''not enough arguments for format string'')
         else (case percent_scan t arg True of Formatted s \<Rightarrow> Formatted (arg @ s) | r \<Rightarrow> r))
      else if d = CHR ''%'' then
        (case percent_scan t arg used of Formatted s \<Rightarrow> Formatted (CHR ''%'' # s) | r \<Rightarrow> r)
      else Unmodelled)"

definition py_percent :: "builtins \<Rightarrow> string \<Rightarrow> string \<Rightarrow> error + string" where
  "py_percent B template arg =
     (case percent_scan template arg False of
        Formatted s \<Rightarrow> Inr s
      | Failed e \<Rightarrow> Inl e
      | Unmodelled \<Rightarrow> format_other B template arg)"

subsection \<open>\<open>check_metadata\<close>\<close>

text \<open>A decoded calibration: what \<open>getMetadata()\<close> returns, and the rest of the object.\<close>

record 'p calib =
  getMetadata :: "(string \<times> pyval) list"
  payload :: 'p

text \<open>
  The message is one string: the four adjacent f-string literals are concatenated first,
  and \<open>% (filepath)\<close> applies to the whole of it, the interpolated values included.
\<close>

definition mismatch_template ::
  "builtins \<Rightarrow> string \<Rightarrow> int \<Rightarrow> string \<Rightarrow> pyval \<Rightarrow> pyval \<Rightarrow> pyval \<Rightarrow> string" where
  "mismatch_template B instrument chip_id data_name finst fchip_id fdata_name =
     ''Path and file metadata do not agree:\<newline>''
     @ ''Path metadata: '' @ instrument @ '' '' @ show_int chip_id @ '' '' @ data_name @ ''\<newline>''
     @ ''File metadata: '' @ py_format B finst @ '' '' @ py_format B fchip_id @ '' ''
         @ py_format B fdata_name @ ''\<newline>''
     @ ''File read from : %s\<newline>''"

definition check_metadata ::
  "builtins \<Rightarrow> 'p calib \<Rightarrow> 't \<Rightarrow> string \<Rightarrow> int \<Rightarrow> string \<Rightarrow> string \<Rightarrow> error + unit" where
  "check_metadata B obj valid_start instrument chip_id filepath data_name =
     (let md = getMetadata obj in
      case map_of md ''INSTRUME'' of
        None \<Rightarrow> Inl (KeyError ''INSTRUME'')
      | Some finst \<Rightarrow>
     (case map_of md ''DETECTOR'' of
        None \<Rightarrow> Inl (KeyError ''DETECTOR'')
      | Some fchip_id \<Rightarrow>
     (case map_of md ''OBSTYPE'' of
        None \<Rightarrow> Inl (KeyError ''OBSTYPE'')
      | Some fdata_name \<Rightarrow>
     (case str_lower finst of
        Inl e \<Rightarrow> Inl e
      | Inr finst_lower \<Rightarrow>
     (case py_int B fchip_id of
        Inl e \<Rightarrow> Inl e
      | Inr fchip_int \<Rightarrow>
     (case str_lower fdata_name of
        Inl e \<Rightarrow> Inl e
      | Inr fdata_lower \<Rightarrow>
          if \<not> ((finst_lower, fchip_int, fdata_lower)
                  = (lower instrument, PInt chip_id, lower data_name))
          then (case py_percent B
                       (mismatch_template B instrument chip_id data_name finst fchip_id fdata_name)
                       filepath of
                  Inl e \<Rightarrow> Inl e
                | Inr message \<Rightarrow> Inl (ValueError message))
          else Inr ()))))))"

subsection \<open>\<open>read_one_chip\<close>\<close>

text \<open>
  The file system and the libraries behind it: \<open>os.path.normpath\<close>, \<open>os.listdir\<close>,
  \<open>os.path.isdir\<close>, \<open>glob.glob\<close>, \<open>os.path.splitext\<close>, \<open>dateutil.parser.parse\<close> and the
  \<open>readText\<close> of the factory class of a category.
\<close>

record ('t, 'p) storage =
  normpath :: "string \<Rightarrow> string"
  listdir :: "string \<Rightarrow> error + string list"
  isdir :: "string \<Rightarrow> bool"
  glob :: "string \<Rightarrow> string list"
  splitext :: "string \<Rightarrow> string \<times> string"
  parse_date :: "string \<Rightarrow> error + 't"
  readText :: "string \<Rightarrow> string \<Rightarrow> error + 'p calib"

definition factory_names :: "string list" where
  "factory_names = [''qe_curve'', ''defects'', ''linearizer'', ''crosstalk'', ''bfk'', ''photodiode'']"

text \<open>The loop \<open>for f in files\<close>; \<open>data_dict\<close> is keyed by the validity start.\<close>

fun read_files ::
  "('t, 'p) storage \<Rightarrow> builtins \<Rightarrow> string \<Rightarrow> int \<Rightarrow> string \<Rightarrow> string list
     \<Rightarrow> ('t \<times> 'p calib) list \<Rightarrow> error + ('t \<times> 'p calib) list" where
  "read_files S B instrument chip_id data_name [] data_dict = Inr data_dict"
| "read_files S B instrument chip_id data_name (f # files) data_dict =
     (let date_str = fst (splitext S (basename f)) in
      case parse_date S date_str of
        Inl e \<Rightarrow> Inl e
      | Inr valid_start \<Rightarrow>
     (case readText S data_name f of
        Inl e \<Rightarrow> Inl e
      | Inr obj \<Rightarrow>
     (case check_metadata B obj valid_start instrument chip_id f data_name of
        Inl e \<Rightarrow> Inl e
      | Inr _ \<Rightarrow>
          read_files S B instrument chip_id data_name files
            (AList.update valid_start obj data_dict))))"

definition read_one_chip ::
  "('t, 'p) storage \<Rightarrow> builtins \<Rightarrow> string \<Rightarrow> string \<Rightarrow> int
     \<Rightarrow> error + ('t \<times> 'p calib) list \<times> string" where
  "read_one_chip S B rootdir chip_name chip_id =
     (let files = concat (map (\<lambda>ext. glob S (path_join (path_join rootdir chip_name) (''*'' @ ext)))
                            [''.ecsv'', ''.yaml'']);
          parts = path_split rootdir;
          instrument = snd (path_split (fst parts));
          data_name = snd parts
      in if data_name \<notin> set factory_names
         then Inl (ValueError
                (''Unknown calibration data type, '' @ quote @ data_name @ quote @ '' found. ''
                  @ ''Only understand '' @ join_str '','' factory_names))
         else (case read_files S B instrument chip_id data_name files [] of
                 Inl e \<Rightarrow> Inl e
               | Inr data_dict \<Rightarrow> Inr (data_dict, data_name)))"

subsection \<open>\<open>read_all\<close>\<close>

text \<open>
  The camera: its name and its detectors (name and id). Iterating the camera and
  \<open>getNameIter()\<close> are taken in the same order; \<open>camera[name]\<close> finds a detector by name.
\<close>

record camera =
  getName :: string
  detectors :: "(string \<times> int) list"

text \<open>
  The dict comprehension \<open>{det.getName().lower(): det.getName() for det in camera}\<close>: of
  two detectors with the same lower-cased name the later one stays.
\<close>

definition name_map :: "camera \<Rightarrow> string \<Rightarrow> string option" where
  "name_map cam = map_of (rev (map (\<lambda>det. (lower (fst det), fst det)) (detectors cam)))"

definition unknown_detector_message :: "camera \<Rightarrow> string \<Rightarrow> string" where
  "unknown_detector_message cam chip_name =
     (let names = map fst (detectors cam);
          max_detectors = 10;
          note_str = (if length names > max_detectors then ''examples'' else ''knows'');
          names = (if length names > max_detectors then take max_detectors names else names)
      in ''Detector '' @ chip_name @ '' not known to supplied camera '' @ getName cam
           @ '' ('' @ note_str @ '': '' @ join_str '','' names @ '')'')"

text \<open>
  The state of the loop \<open>for d in dirs\<close>: \<open>data_by_chip\<close>, the set \<open>calib_types\<close> (a list
  without repetitions) and the variable \<open>calib_type\<close>, unbound before the first turn.
  The loop is written over the function that loads one sensor; \<open>read_all\<close> passes
  \<open>read_one_chip\<close>.
\<close>

type_synonym 'd loop_state = "(string \<times> 'd) list \<times> string list \<times> string option"

fun read_all_dirs ::
  "(string \<Rightarrow> int \<Rightarrow> error + 'd \<times> string) \<Rightarrow> builtins \<Rightarrow> camera \<Rightarrow> string list
     \<Rightarrow> 'd loop_state \<Rightarrow> error + 'd loop_state" where
  "read_all_dirs loader B cam [] st = Inr st"
| "read_all_dirs loader B cam (d # dirs) (data_by_chip, calib_types, calib_type) =
     (let chip_name = basename d in
      case name_map cam chip_name of
        None \<Rightarrow> Inl (RuntimeError (unknown_detector_message cam chip_name))
      | Some canonical \<Rightarrow>
     (case map_of (detectors cam) canonical of
        None \<Rightarrow> Inl (KeyError canonical)
      | Some chip_id \<Rightarrow>
     (case loader chip_name chip_id of
        Inl e \<Rightarrow> Inl e
      | Inr (data, ct) \<Rightarrow>
          (let data_by_chip = AList.update chip_name data data_by_chip;
               calib_types = List.insert ct calib_types
           in if length calib_types \<noteq> 1
              then Inl (ValueError (''Error mixing calib types: '' @ repr_set B (set calib_types)))
              else read_all_dirs loader B cam dirs (data_by_chip, calib_types, Some ct)))))"

text \<open>\<open>[d for d in dirs if os.path.isdir(os.path.join(root, d))]\<close>.\<close>

definition subdirs :: "('t, 'p) storage \<Rightarrow> string \<Rightarrow> string list \<Rightarrow> string list" where
  "subdirs S rootdir entries = filter (\<lambda>d. isdir S (path_join rootdir d)) entries"

definition read_all_with ::
  "(string \<Rightarrow> string \<Rightarrow> int \<Rightarrow> error + ('k \<times> 'v) list \<times> string) \<Rightarrow> ('t, 'p) storage
     \<Rightarrow> builtins \<Rightarrow> string \<Rightarrow> camera \<Rightarrow> error + (string \<times> ('k \<times> 'v) list) list \<times> string" where
  "read_all_with loader S B rootdir cam =
     (let rootdir = normpath S rootdir in
      case listdir S rootdir of
        Inl e \<Rightarrow> Inl e
      | Inr entries \<Rightarrow>
          (let dirs = subdirs S rootdir entries in
           if dirs = [] then Inl (RuntimeError (''No data found on path '' @ rootdir))
           else (case read_all_dirs (loader rootdir) B cam dirs ([], [], None) of
                   Inl e \<Rightarrow> Inl e
                 | Inr (data_by_chip, calib_types, calib_type) \<Rightarrow>
                     if list_all (\<lambda>kv. snd kv = []) data_by_chip
                     then Inl (RuntimeError ''No data to ingest'')
                     else (case calib_type of
                             None \<Rightarrow> Inl (UnboundLocalError ''calib_type'')
                           | Some ct \<Rightarrow> Inr (data_by_chip, ct)))))"

definition read_all ::
  "('t, 'p) storage \<Rightarrow> builtins \<Rightarrow> string \<Rightarrow> camera
     \<Rightarrow> error + (string \<times> ('t \<times> 'p calib) list) list \<times> string" where
  "read_all S B rootdir cam = read_all_with (read_one_chip S B) S B rootdir cam"

subsection \<open>What the loop sees of one sensor\<close>

text \<open>
  The result of loading the subdirectory \<open>d\<close> when its name resolves in the camera's
  table (\<open>None\<close> when it does not), the category it yields when the load returns, and
  the categories seen so far: those yielded by the subdirectories \<open>ds\<close> and those
  already in \<open>calib_types\<close>.
\<close>

definition sensor_result ::
  "(string \<Rightarrow> int \<Rightarrow> error + 'd \<times> string) \<Rightarrow> camera \<Rightarrow> string \<Rightarrow> (error + 'd \<times> string) option" where
  "sensor_result loader cam d =
     (case name_map cam (basename d) of
        None \<Rightarrow> None
      | Some canonical \<Rightarrow>
          (case map_of (detectors cam) canonical of
             None \<Rightarrow> None
           | Some chip_id \<Rightarrow> Some (loader (basename d) chip_id)))"

definition yielded_category ::
  "(string \<Rightarrow> int \<Rightarrow> error + 'd \<times> string) \<Rightarrow> camera \<Rightarrow> string \<Rightarrow> string option" where
  "yielded_category loader cam d =
     (case sensor_result loader cam d of
        Some (Inr dc) \<Rightarrow> Some (snd dc)
      | _ \<Rightarrow> None)"

definition seen_category ::
  "(string \<Rightarrow> int \<Rightarrow> error + 'd \<times> string) \<Rightarrow> camera \<Rightarrow> string list \<Rightarrow> string list \<Rightarrow> string \<Rightarrow> bool" where
  "seen_category loader cam ds cts c \<longleftrightarrow>
     list_ex (\<lambda>p. yielded_category loader cam p = Some c) ds \<or> c \<in> set cts"

subsection \<open>Example archives\<close>

text \<open>
  A camera with two detectors and one with twelve; a storage whose root has the given
  entries, all directories without files; a storage with one calibration file for
  \<open>ccd01\<close>; a storage with one file for each of \<open>ccd01\<close> and \<open>ccd02\<close>, where the header of
  the second file declares the given observation type, and the message of the metadata
  check when that type is \<open>linearizer\<close>.
\<close>

definition test_camera :: camera where
  "test_camera = \<lparr>getName = ''TestCam'', detectors = [(''CCD01'', 1), (''CCD02'', 2)]\<rparr>"

definition big_camera :: camera where
  "big_camera =
     \<lparr>getName = ''BigCam'',
      detectors = [(''D00'', 0), (''D01'', 1), (''D02'', 2), (''D03'', 3), (''D04'', 4),
                   (''D05'', 5), (''D06'', 6), (''D07'', 7), (''D08'', 8), (''D09'', 9),
                   (''D10'', 10), (''D11'', 11)]\<rparr>"

definition test_root :: string where
  "test_root = ''/repo/TestCam/defects''"

definition test_storage :: "string list \<Rightarrow> (nat, unit) storage" where
  "test_storage entries =
     \<lparr>normpath = (\<lambda>p. p),
      listdir = (\<lambda>p. Inr entries),
      isdir = (\<lambda>p. True),
      glob = (\<lambda>p. []),
      splitext = (\<lambda>p. (p, [])),
      parse_date = (\<lambda>s. Inl (ValueError ''Unknown string format'')),
      readText = (\<lambda>c f. Inl (ValueError ''no such file''))\<rparr>"

definition test_calib :: "unit calib" where
  "test_calib =
     \<lparr>getMetadata = [(''INSTRUME'', PStr ''TestCam''), (''DETECTOR'', PInt 1),
                     (''OBSTYPE'', PStr ''defects'')],
      payload = ()\<rparr>"

definition file_storage :: "(nat, unit) storage" where
  "file_storage =
     \<lparr>normpath = (\<lambda>p. p),
      listdir = (\<lambda>p. Inr [''ccd01'']),
      isdir = (\<lambda>p. True),
      glob = (\<lambda>p. if p = ''/repo/TestCam/defects/ccd01/*.yaml''
                  then [''/repo/TestCam/defects/ccd01/2021-05-01.yaml''] else []),
      splitext = (\<lambda>p. (takeWhile (\<lambda>c. c \<noteq> CHR ''.'') p, dropWhile (\<lambda>c. c \<noteq> CHR ''.'') p)),
      parse_date = (\<lambda>s. if s = ''2021-05-01'' then Inr 20210501
                        else Inl (ValueError ''Unknown string format'')),
      readText = (\<lambda>c f. Inr test_calib)\<rparr>"




section \<open>Properties of recipe validation\<close>

subsection \<open>Conversion to the type of the default\<close>

lemma construct_type: "construct B t v = Inr w \<Longrightarrow> pytype_of w = t"
  by (cases t; cases v) (auto simp: py_str_def split: option.splits)

lemma construct_same: "pytype_of v \<noteq> TNone \<Longrightarrow> construct B (pytype_of v) v = Inr v"
  by (cases v) (auto simp: py_str_def)

lemma construct_error_class:
  "construct B t v = Inl e \<Longrightarrow>
   (\<exists>m. e = TypeError m) \<or> (\<exists>m. e = ValueError m) \<or> (\<exists>m. e = OverflowError m)"
  by (cases t; cases v) (auto simp: py_str_def split: option.splits)

lemma field_value_type: "field_value B entry key dflt = Inr v \<Longrightarrow> pytype_of v = pytype_of dflt"
  by (auto simp: field_value_def split: option.splits dest: construct_type)

lemma field_value_cases:
  "field_value B entry key dflt = Inr w \<longleftrightarrow>
     (case map_of entry key of None \<Rightarrow> w = dflt | Some raw \<Rightarrow> construct B (pytype_of dflt) raw = Inr w)"
  by (auto simp: field_value_def split: option.splits)

lemma field_value_error:
  "field_value B entry key dflt = Inl e \<longleftrightarrow>
     (\<exists>raw. map_of entry key = Some raw \<and> construct B (pytype_of dflt) raw = Inl e)"
  by (auto simp: field_value_def split: option.splits)

subsection \<open>The fields of one section\<close>

lemma validate_fields_Cons:
  "validate_fields B entry ((key, dflt) # schema) =
     (case field_value B entry key dflt of
        Inl e \<Rightarrow> Inl e
      | Inr v \<Rightarrow> (case validate_fields B entry schema of
                    Inl e \<Rightarrow> Inl e
                  | Inr rest \<Rightarrow> Inr ((key, v) # rest)))"
  by (simp add: field_value_def)

lemma validate_fields_signature:
  "validate_fields B entry schema = Inr out \<Longrightarrow> signature out = signature schema"
proof (induction schema arbitrary: out)
  case Nil
  then show ?case by (simp add: signature_def)
next
  case (Cons kd schema)
  obtain key dflt where kd: "kd = (key, dflt)" by (cases kd)
  from Cons.prems obtain v rest where
    v: "field_value B entry key dflt = Inr v" and
    rest: "validate_fields B entry schema = Inr rest" and
    out: "out = (key, v) # rest"
    unfolding kd validate_fields_Cons by (auto split: sum.splits)
  from Cons.IH [OF rest] field_value_type [OF v] out kd show ?case
    by (simp add: signature_def)
qed

lemma validate_fields_value:
  assumes "validate_fields B entry schema = Inr out"
    and "distinct (map fst schema)"
    and "(key, dflt) \<in> set schema"
  shows "\<exists>w. map_of out key = Some w \<and> field_value B entry key dflt = Inr w"
  using assms
proof (induction schema arbitrary: out)
  case Nil
  then show ?case by simp
next
  case (Cons kd schema)
  obtain k d where kd: "kd = (k, d)" by (cases kd)
  from Cons.prems(1) obtain v rest where
    v: "field_value B entry k d = Inr v" and
    rest: "validate_fields B entry schema = Inr rest" and
    out: "out = (k, v) # rest"
    unfolding kd validate_fields_Cons by (auto split: sum.splits)
  from Cons.prems(2) kd have fresh: "k \<notin> fst ` set schema" and dist: "distinct (map fst schema)"
    by auto
  show ?case
  proof (cases "key = k")
    case True
    with Cons.prems(3) kd fresh have "dflt = d" by (auto simp: image_iff)
    with True v out show ?thesis by simp
  next
    case False
    with Cons.prems(3) kd have mem: "(key, dflt) \<in> set schema" by simp
    from Cons.IH [OF rest dist mem]
    obtain w where "map_of rest key = Some w" "field_value B entry key dflt = Inr w" by auto
    with False out show ?thesis by simp
  qed
qed

lemma validate_fields_error:
  "validate_fields B entry schema = Inl e \<Longrightarrow>
   \<exists>kd \<in> set schema. field_value B entry (fst kd) (snd kd) = Inl e"
proof (induction schema)
  case Nil
  then show ?case by simp
next
  case (Cons kd schema)
  obtain k d where kd: "kd = (k, d)" by (cases kd)
  from Cons.prems have
    "field_value B entry k d = Inl e \<or> validate_fields B entry schema = Inl e"
    unfolding kd validate_fields_Cons by (auto split: sum.splits)
  with Cons.IH kd show ?case by auto
qed

lemma validate_fields_fixed_aux:
  assumes "distinct (map fst entry)"
    and "set out \<subseteq> set entry"
    and "signature out = signature schema"
    and "TNone \<notin> snd ` set (signature schema)"
  shows "validate_fields B entry schema = Inr out"
  using assms(2-)
proof (induction schema arbitrary: out)
  case Nil
  then show ?case by (simp add: signature_def)
next
  case (Cons kd schema)
  obtain k d where kd: "kd = (k, d)" by (cases kd)
  from Cons.prems(2) kd obtain v rest where
    out: "out = (k, v) # rest" and ty: "pytype_of v = pytype_of d" and
    sig: "signature rest = signature schema"
    by (auto simp: signature_def)
  from Cons.prems(1) out have "(k, v) \<in> set entry" by simp
  with assms(1) have look: "map_of entry k = Some v" by simp
  from Cons.prems(3) kd have "pytype_of d \<noteq> TNone" by (auto simp: signature_def image_iff)
  with ty have "construct B (pytype_of d) v = Inr v" using construct_same [of v B] by simp
  with look have fv: "field_value B entry k d = Inr v" by (simp add: field_value_def)
  from Cons.prems(1) out have sub: "set rest \<subseteq> set entry" by simp
  from Cons.prems(3) have "TNone \<notin> snd ` set (signature schema)" by (auto simp: signature_def)
  from Cons.IH [OF sub sig this] fv out show ?case
    unfolding kd validate_fields_Cons by simp
qed

lemma signature_keys: "signature a = signature b \<Longrightarrow> map fst a = map fst b"
proof -
  assume "signature a = signature b"
  then have "map fst (signature a) = map fst (signature b)" by simp
  then show ?thesis by (simp add: signature_def case_prod_unfold comp_def)
qed

lemma validate_fields_fixed:
  assumes "distinct (map fst schema)"
    and "signature entry = signature schema"
    and "TNone \<notin> snd ` set (signature schema)"
  shows "validate_fields B entry schema = Inr entry"
proof -
  from assms(1) signature_keys [OF assms(2)] have "distinct (map fst entry)" by simp
  then show ?thesis using assms(2,3) by (intro validate_fields_fixed_aux) auto
qed

subsection \<open>One section\<close>

lemma checkUnrecognized_Inr:
  "checkUnrecognized B entry allowed d = Inr u \<longleftrightarrow> unrecognized_keys entry allowed = {}"
  by (auto simp: checkUnrecognized_def Let_def)

lemma checkUnrecognized_Inl:
  "checkUnrecognized B entry allowed d = Inl e \<longleftrightarrow>
     unrecognized_keys entry allowed \<noteq> {} \<and>
     e = RuntimeError (unrecognized_message B d (unrecognized_keys entry allowed))"
  by (auto simp: checkUnrecognized_def Let_def)

lemma schema_facts:
  "distinct (map fst compressionSchema)" "distinct (map fst scalingSchema)"
  "TNone \<notin> snd ` set (signature compressionSchema)"
  "TNone \<notin> snd ` set (signature scalingSchema)"
  by (simp_all add: compressionSchema_def scalingSchema_def signature_def)

lemma sections_schema:
  assumes "ss \<in> set sections"
  shows "distinct (map fst (snd ss))" and "TNone \<notin> snd ` set (signature (snd ss))"
  using assms schema_facts by (auto simp: sections_def)

lemma validate_settings_Inr:
  "validate_settings B name plane p sect schema = Inr out \<longleftrightarrow>
     (case map_of p sect of
        None \<Rightarrow> out = schema
      | Some entry \<Rightarrow> unrecognized_keys entry (map fst schema) = {}
                      \<and> validate_fields B entry schema = Inr out)"
  by (auto simp: validate_settings_def checkUnrecognized_def Let_def split: option.splits)

lemma validate_settings_Inl:
  "validate_settings B name plane p sect schema = Inl e \<longleftrightarrow>
     (\<exists>entry. map_of p sect = Some entry \<and>
        (if unrecognized_keys entry (map fst schema) \<noteq> {}
         then e = RuntimeError (unrecognized_message B (name @ ''->'' @ plane @ ''->'' @ sect)
                                 (unrecognized_keys entry (map fst schema)))
         else validate_fields B entry schema = Inl e))"
  by (auto simp: validate_settings_def checkUnrecognized_def Let_def split: option.splits)

lemma validate_settings_signature:
  "validate_settings B name plane p sect schema = Inr out \<Longrightarrow> signature out = signature schema"
  by (auto simp: validate_settings_Inr split: option.splits dest: validate_fields_signature)

lemma validate_settings_value:
  assumes "validate_settings B name plane p sect schema = Inr out"
    and "distinct (map fst schema)"
    and "(key, dflt) \<in> set schema"
  shows "\<exists>w. map_of out key = Some w \<and>
           (case (case map_of p sect of None \<Rightarrow> None | Some s \<Rightarrow> map_of s key) of
              None \<Rightarrow> w = dflt
            | Some raw \<Rightarrow> construct B (pytype_of dflt) raw = Inr w)"
proof (cases "map_of p sect")
  case None
  with assms(1) have "out = schema" by (simp add: validate_settings_Inr)
  with assms(2,3) None show ?thesis by simp
next
  case (Some entry)
  with assms(1) have "validate_fields B entry schema = Inr out"
    by (simp add: validate_settings_Inr)
  from validate_fields_value [OF this assms(2,3)] Some show ?thesis
    by (auto simp: field_value_cases)
qed

lemma validate_settings_fixed:
  assumes "map_of p sect = Some entry"
    and "signature entry = signature schema"
    and "distinct (map fst schema)"
    and "TNone \<notin> snd ` set (signature schema)"
  shows "validate_settings B name plane p sect schema = Inr entry"
proof -
  from signature_keys [OF assms(2)] have "unrecognized_keys entry (map fst schema) = {}"
    by (simp add: unrecognized_keys_def)
  with assms(1) validate_fields_fixed [OF assms(3) assms(2) assms(4)] show ?thesis
    by (simp add: validate_settings_Inr)
qed

subsection \<open>One plane\<close>

lemma validate_plane_Inr:
  "validate_plane B name r plane = Inr np \<longleftrightarrow>
     (\<exists>p c s. map_of r plane = Some p \<and>
        unrecognized_keys p [''compression'', ''scaling''] = {} \<and>
        validate_settings B name plane p ''compression'' compressionSchema = Inr c \<and>
        validate_settings B name plane p ''scaling'' scalingSchema = Inr s \<and>
        np = [(''compression'', c), (''scaling'', s)])"
  by (auto simp: validate_plane_def checkUnrecognized_def Let_def split: option.splits sum.splits)

lemma validate_plane_normalized:
  "validate_plane B name r plane = Inr np \<Longrightarrow> normalized_plane np"
  by (auto simp: validate_plane_Inr normalized_plane_def sections_def
      dest: validate_settings_signature)

lemma validate_plane_value:
  assumes "validate_plane B name r plane = Inr np"
    and "ss \<in> set sections" and "kd \<in> set (snd ss)"
  shows "\<exists>sv w. map_of np (fst ss) = Some sv \<and> map_of sv (fst kd) = Some w \<and>
           (case field_of r plane (fst ss) (fst kd) of
              None \<Rightarrow> w = snd kd
            | Some raw \<Rightarrow> construct B (pytype_of (snd kd)) raw = Inr w)"
proof -
  from assms(1) obtain p c s where
    p: "map_of r plane = Some p" and
    c: "validate_settings B name plane p ''compression'' compressionSchema = Inr c" and
    s: "validate_settings B name plane p ''scaling'' scalingSchema = Inr s" and
    np: "np = [(''compression'', c), (''scaling'', s)]"
    by (auto simp: validate_plane_Inr)
  obtain key dflt where kd: "kd = (key, dflt)" by (cases kd)
  from assms(2) consider "ss = (''compression'', compressionSchema)"
    | "ss = (''scaling'', scalingSchema)"
    by (auto simp: sections_def)
  then show ?thesis
  proof cases
    case 1
    with assms(3) kd have "(key, dflt) \<in> set compressionSchema" by simp
    from validate_settings_value [OF c schema_facts(1) this] 1 np p kd show ?thesis
      by (auto simp: field_of_def split: option.splits)
  next
    case 2
    with assms(3) kd have "(key, dflt) \<in> set scalingSchema" by simp
    from validate_settings_value [OF s schema_facts(2) this] 2 np p kd show ?thesis
      by (auto simp: field_of_def split: option.splits)
  qed
qed

lemma validate_plane_sites:
  "validate_plane B name r plane = Inr np \<Longrightarrow>
   map_of r plane \<noteq> None \<and> (\<forall>site \<in> set (sites_plane name r plane). snd site = {})"
  by (auto simp: validate_plane_Inr sites_plane_def sites_settings_def sections_def
      validate_settings_Inr split: option.splits)

lemma validate_plane_Inl:
  assumes "validate_plane B name r plane = Inl e"
  shows "(map_of r plane = None \<and> e = KeyError plane)
       \<or> (\<exists>site \<in> set (sites_plane name r plane). snd site \<noteq> {} \<and>
             e = RuntimeError (unrecognized_message B (fst site) (snd site)))
       \<or> (\<exists>ss \<in> set sections. \<exists>kd \<in> set (snd ss). \<exists>raw.
             field_of r plane (fst ss) (fst kd) = Some raw \<and>
             construct B (pytype_of (snd kd)) raw = Inl e)"
proof (cases "map_of r plane")
  case None
  with assms show ?thesis by (simp add: validate_plane_def)
next
  case (Some p)
  let ?loc = "name @ ''->'' @ plane"
  show ?thesis
  proof (cases "unrecognized_keys p [''compression'', ''scaling''] = {}")
    case False
    with assms Some have "e = RuntimeError (unrecognized_message B ?loc
        (unrecognized_keys p [''compression'', ''scaling'']))"
      by (auto simp: validate_plane_def checkUnrecognized_def Let_def)
    with False Some show ?thesis
      by (auto simp: sites_plane_def sections_def)
  next
    case True
    with assms Some have
      "validate_settings B name plane p ''compression'' compressionSchema = Inl e
       \<or> validate_settings B name plane p ''scaling'' scalingSchema = Inl e"
      by (auto simp: validate_plane_def checkUnrecognized_def Let_def split: sum.splits)
    then have "\<exists>ss \<in> set sections. validate_settings B name plane p (fst ss) (snd ss) = Inl e"
      by (auto simp: sections_def)
    then obtain ss where ss: "ss \<in> set sections"
      and err: "validate_settings B name plane p (fst ss) (snd ss) = Inl e"
      by blast
    from err obtain entry where entry: "map_of p (fst ss) = Some entry" and
      alt: "if unrecognized_keys entry (map fst (snd ss)) \<noteq> {}
            then e = RuntimeError (unrecognized_message B (?loc @ ''->'' @ fst ss)
                                    (unrecognized_keys entry (map fst (snd ss))))
            else validate_fields B entry (snd ss) = Inl e"
      by (auto simp: validate_settings_Inl)
    show ?thesis
    proof (cases "unrecognized_keys entry (map fst (snd ss)) = {}")
      case False
      with alt have e: "e = RuntimeError (unrecognized_message B (?loc @ ''->'' @ fst ss)
                                    (unrecognized_keys entry (map fst (snd ss))))" by simp
      have "sites_settings name plane p ss
              = [(?loc @ ''->'' @ fst ss, unrecognized_keys entry (map fst (snd ss)))]"
        using entry by (simp add: sites_settings_def)
      with ss have "(?loc @ ''->'' @ fst ss, unrecognized_keys entry (map fst (snd ss)))
              \<in> set (concat (map (sites_settings name plane p) sections))"
        by (auto intro!: bexI [of _ ss])
      with Some have "(?loc @ ''->'' @ fst ss, unrecognized_keys entry (map fst (snd ss)))
              \<in> set (sites_plane name r plane)"
        by (simp add: sites_plane_def)
      with e False show ?thesis by force
    next
      case True
      with alt have "validate_fields B entry (snd ss) = Inl e" by simp
      from validate_fields_error [OF this] obtain kd raw where
        "kd \<in> set (snd ss)" "map_of entry (fst kd) = Some raw"
        "construct B (pytype_of (snd kd)) raw = Inl e"
        by (auto simp: field_value_error)
      with Some entry ss show ?thesis by (auto simp: field_of_def)
    qed
  qed
qed

lemma validate_plane_fixed:
  assumes "map_of r plane = Some p" and "normalized_plane p"
  shows "validate_plane B name r plane = Inr p"
proof -
  from assms(2) obtain c s where p: "p = [(''compression'', c), (''scaling'', s)]"
    and c: "signature c = signature compressionSchema"
    and s: "signature s = signature scalingSchema"
    by (auto simp: normalized_plane_def sections_def map_eq_Cons_conv)
  have "unrecognized_keys p [''compression'', ''scaling''] = {}"
    by (auto simp: p unrecognized_keys_def)
  moreover have "validate_settings B name plane p ''compression'' compressionSchema = Inr c"
    by (rule validate_settings_fixed [OF _ c schema_facts(1) schema_facts(3)]) (simp add: p)
  moreover have "validate_settings B name plane p ''scaling'' scalingSchema = Inr s"
    by (rule validate_settings_fixed [OF _ s schema_facts(2) schema_facts(4)]) (simp add: p)
  ultimately show ?thesis using assms(1) p by (simp add: validate_plane_Inr)
qed

subsection \<open>One recipe\<close>

lemma validate_planes_Cons:
  "validate_planes B name r (plane # ps) = Inr v \<longleftrightarrow>
     (\<exists>np rest. validate_plane B name r plane = Inr np \<and>
        validate_planes B name r ps = Inr rest \<and> v = (plane, np) # rest)"
  by (cases "validate_plane B name r plane"; cases "validate_planes B name r ps") auto

lemma validate_planes_Inr:
  "validate_planes B name r ps = Inr v \<Longrightarrow>
   map fst v = ps \<and> (\<forall>pn \<in> set v. validate_plane B name r (fst pn) = Inr (snd pn))"
proof (induction ps arbitrary: v)
  case Nil
  then show ?case by simp
next
  case (Cons plane ps)
  from Cons.prems [unfolded validate_planes_Cons] obtain np rest where
    np: "validate_plane B name r plane = Inr np" and
    rest: "validate_planes B name r ps = Inr rest" and
    v: "v = (plane, np) # rest"
    by blast
  from Cons.IH [OF rest] np v show ?case by simp
qed

lemma validate_planes_lookup:
  assumes "validate_planes B name r ps = Inr v" and "distinct ps" and "plane \<in> set ps"
  shows "\<exists>np. map_of v plane = Some np \<and> validate_plane B name r plane = Inr np"
proof -
  from validate_planes_Inr [OF assms(1)] have
    keys: "map fst v = ps" and
    each: "\<forall>pn \<in> set v. validate_plane B name r (fst pn) = Inr (snd pn)"
    by simp_all
  from keys assms(3) have "plane \<in> set (map fst v)" by simp
  then obtain np where mem: "(plane, np) \<in> set v" by auto
  from keys assms(2) have "distinct (map fst v)" by simp
  with mem have look: "map_of v plane = Some np" by simp
  from each mem have "validate_plane B name r plane = Inr np" by force
  with look show ?thesis by blast
qed

lemma validate_planes_Inl:
  "validate_planes B name r ps = Inl e \<Longrightarrow>
   \<exists>plane \<in> set ps. validate_plane B name r plane = Inl e"
proof (induction ps)
  case Nil
  then show ?case by simp
next
  case (Cons plane ps)
  from Cons.prems have
    "validate_plane B name r plane = Inl e \<or> validate_planes B name r ps = Inl e"
    by (cases "validate_plane B name r plane"; cases "validate_planes B name r ps") auto
  with Cons.IH show ?case by auto
qed

lemma validate_planes_fixed_aux:
  assumes "distinct (map fst r)"
  shows "set r' \<subseteq> set r \<Longrightarrow> list_all (normalized_plane \<circ> snd) r' \<Longrightarrow>
         validate_planes B name r (map fst r') = Inr r'"
proof (induction r')
  case Nil
  then show ?case by simp
next
  case (Cons pn r')
  obtain plane p where pn: "pn = (plane, p)" by (cases pn)
  from Cons.prems(1) pn have "(plane, p) \<in> set r" by simp
  with assms have "map_of r plane = Some p" by simp
  moreover from Cons.prems(2) pn have "normalized_plane p" by simp
  ultimately have "validate_plane B name r plane = Inr p" by (rule validate_plane_fixed)
  moreover from Cons.prems have "validate_planes B name r (map fst r') = Inr r'"
    by (intro Cons.IH) auto
  ultimately show ?case by (simp add: pn)
qed

lemma planes_distinct: "distinct planes"
  by (simp add: planes_def)

lemma validate_recipe_Inr:
  "validate_recipe B name r = Inr v \<longleftrightarrow>
     unrecognized_keys r planes = {} \<and> validate_planes B name r planes = Inr v"
  unfolding validate_recipe_def checkUnrecognized_def Let_def
  by (cases "unrecognized_keys r planes = {}") simp_all

lemma validate_recipe_normalized:
  assumes "validate_recipe B name r = Inr v"
  shows "normalized_recipe v"
proof -
  from assms have vp: "validate_planes B name r planes = Inr v"
    by (simp add: validate_recipe_Inr)
  from validate_planes_Inr [OF vp] show ?thesis
    by (auto simp: normalized_recipe_def list_all_iff dest: validate_plane_normalized)
qed

lemma validate_recipe_agrees:
  assumes "validate_recipe B name r = Inr v"
  shows "agrees B r v"
proof -
  from assms have vp: "validate_planes B name r planes = Inr v"
    by (simp add: validate_recipe_Inr)
  have "case field_of v plane (fst ss) (fst kd) of
          None \<Rightarrow> False
        | Some w \<Rightarrow>
            (case field_of r plane (fst ss) (fst kd) of
               None \<Rightarrow> w = snd kd
             | Some raw \<Rightarrow> construct B (pytype_of (snd kd)) raw = Inr w)"
    if "plane \<in> set planes" "ss \<in> set sections" "kd \<in> set (snd ss)" for plane ss kd
  proof -
    from validate_planes_lookup [OF vp planes_distinct that(1)] obtain np where
      np: "map_of v plane = Some np" "validate_plane B name r plane = Inr np" by blast
    from validate_plane_value [OF np(2) that(2,3)] obtain sv w where
      "map_of np (fst ss) = Some sv" "map_of sv (fst kd) = Some w"
      "case field_of r plane (fst ss) (fst kd) of
         None \<Rightarrow> w = snd kd
       | Some raw \<Rightarrow> construct B (pytype_of (snd kd)) raw = Inr w"
      by blast
    with np(1) show ?thesis by (simp add: field_of_def)
  qed
  then show ?thesis by (simp add: agrees_def list_all_iff)
qed

lemma validate_recipe_sites:
  assumes "validate_recipe B name r = Inr v"
  shows "missing_planes r = [] \<and> (\<forall>site \<in> set (sites_recipe (name, r)). snd site = {})"
proof -
  from assms have u: "unrecognized_keys r planes = {}"
    and vp: "validate_planes B name r planes = Inr v"
    by (simp_all add: validate_recipe_Inr)
  have each: "map_of r plane \<noteq> None \<and> (\<forall>site \<in> set (sites_plane name r plane). snd site = {})"
    if "plane \<in> set planes" for plane
  proof -
    from validate_planes_lookup [OF vp planes_distinct that] obtain np where
      "validate_plane B name r plane = Inr np" by blast
    then show ?thesis by (rule validate_plane_sites)
  qed
  then have "missing_planes r = []"
    by (auto simp: missing_planes_def filter_empty_conv)
  moreover from each u have "\<forall>site \<in> set (sites_recipe (name, r)). snd site = {}"
    by (auto simp: sites_recipe_def)
  ultimately show ?thesis by simp
qed

lemma validate_recipe_Inl:
  assumes "validate_recipe B name r = Inl e"
  shows "(\<exists>k \<in> set (missing_planes r). e = KeyError k)
       \<or> (\<exists>site \<in> set (sites_recipe (name, r)). snd site \<noteq> {} \<and>
             e = RuntimeError (unrecognized_message B (fst site) (snd site)))
       \<or> (\<exists>plane \<in> set planes. \<exists>ss \<in> set sections. \<exists>kd \<in> set (snd ss). \<exists>raw.
             field_of r plane (fst ss) (fst kd) = Some raw \<and>
             construct B (pytype_of (snd kd)) raw = Inl e)"
proof (cases "unrecognized_keys r planes = {}")
  case False
  with assms have "e = RuntimeError (unrecognized_message B name (unrecognized_keys r planes))"
    by (auto simp: validate_recipe_def checkUnrecognized_def Let_def)
  with False show ?thesis by (auto simp: sites_recipe_def)
next
  case True
  with assms have "validate_planes B name r planes = Inl e"
    by (auto simp: validate_recipe_def checkUnrecognized_def Let_def)
  from validate_planes_Inl [OF this] obtain plane where
    plane: "plane \<in> set planes" and err: "validate_plane B name r plane = Inl e" by blast
  from validate_plane_Inl [OF err] show ?thesis
  proof (elim disjE conjE bexE exE)
    assume "map_of r plane = None" and e: "e = KeyError plane"
    with plane have "plane \<in> set (missing_planes r)" by (simp add: missing_planes_def)
    with e show ?thesis by blast
  next
    fix site
    assume site: "site \<in> set (sites_plane name r plane)" "snd site \<noteq> {}"
      "e = RuntimeError (unrecognized_message B (fst site) (snd site))"
    from site(1) plane have "site \<in> set (sites_recipe (name, r))"
      by (auto simp: sites_recipe_def)
    with site(2,3) show ?thesis by blast
  next
    fix ss kd raw
    assume "ss \<in> set sections" "kd \<in> set (snd ss)"
      "field_of r plane (fst ss) (fst kd) = Some raw"
      "construct B (pytype_of (snd kd)) raw = Inl e"
    with plane show ?thesis by blast
  qed
qed

lemma validate_recipe_fixed:
  assumes "normalized_recipe r"
  shows "validate_recipe B name r = Inr r"
proof -
  from assms have keys: "map fst r = planes" and each: "list_all (normalized_plane \<circ> snd) r"
    by (simp_all add: normalized_recipe_def)
  from keys have "unrecognized_keys r planes = {}" by (simp add: unrecognized_keys_def)
  moreover from keys planes_distinct have "distinct (map fst r)" by simp
  then have "validate_planes B name r (map fst r) = Inr r"
    using each by (intro validate_planes_fixed_aux) auto
  ultimately show ?thesis using keys by (simp add: validate_recipe_Inr)
qed

subsection \<open>All recipes\<close>

lemma validate_all_Cons:
  "validate_all B ((name, r) # rest) = Inr V \<longleftrightarrow>
     (\<exists>v vs. validate_recipe B name r = Inr v \<and> validate_all B rest = Inr vs \<and> V = (name, v) # vs)"
  by (cases "validate_recipe B name r"; cases "validate_all B rest") auto

lemma validate_all_Inr:
  "validate_all B R = Inr V \<Longrightarrow>
   list_all2 (\<lambda>nr nv. fst nv = fst nr \<and> validate_recipe B (fst nr) (snd nr) = Inr (snd nv)) R V"
proof (induction R arbitrary: V)
  case Nil
  then show ?case by simp
next
  case (Cons nr R)
  obtain name r where nr: "nr = (name, r)" by (cases nr)
  from Cons.prems [unfolded nr validate_all_Cons] obtain v vs where
    "validate_recipe B name r = Inr v" "validate_all B R = Inr vs" "V = (name, v) # vs"
    by blast
  with Cons.IH [of vs] nr show ?case by simp
qed

lemma validate_all_Inl:
  "validate_all B R = Inl e \<Longrightarrow> \<exists>nr \<in> set R. validate_recipe B (fst nr) (snd nr) = Inl e"
proof (induction R)
  case Nil
  then show ?case by simp
next
  case (Cons nr R)
  obtain name r where nr: "nr = (name, r)" by (cases nr)
  from Cons.prems have "validate_recipe B name r = Inl e \<or> validate_all B R = Inl e"
    unfolding nr by (cases "validate_recipe B name r"; cases "validate_all B R") auto
  with Cons.IH nr show ?case by auto
qed

lemma validate_all_fixed: "normalized V \<Longrightarrow> validate_all B V = Inr V"
proof (induction V)
  case Nil
  then show ?case by simp
next
  case (Cons nv V)
  obtain name v where nv: "nv = (name, v)" by (cases nv)
  from Cons.prems nv have "normalized_recipe v" and "normalized V"
    by (simp_all add: normalized_def)
  with Cons.IH validate_recipe_fixed [of v B name] show ?case
    by (simp add: nv)
qed

lemma validate_all_result:
  assumes "validate_all B R = Inr V"
  shows "normalized V" and "map fst V = map fst R"
    and "list_all2 (\<lambda>nr nv. agrees B (snd nr) (snd nv)) R V"
    and "unrecognized_sites R = []" and "\<forall>nr \<in> set R. missing_planes (snd nr) = []"
proof -
  let ?ok = "\<lambda>nr nv. fst nv = fst nr \<and> validate_recipe B (fst nr) (snd nr) = Inr (snd nv)"
  from validate_all_Inr [OF assms] have ok: "list_all2 ?ok R V" .
  have "list_all2 (\<lambda>nr nv. normalized_recipe (snd nv)) R V"
    by (rule list_all2_mono [OF ok]) (auto dest: validate_recipe_normalized)
  then have "list_all (\<lambda>nv. normalized_recipe (snd nv)) V"
    by (induction rule: list_all2_induct) simp_all
  then show "normalized V"
    by (simp add: normalized_def comp_def)
  have "list_all2 (\<lambda>nr nv. fst nr = fst nv) R V"
    by (rule list_all2_mono [OF ok]) auto
  then show "map fst V = map fst R"
    by (simp add: list_all2_conv_all_nth list_eq_iff_nth_eq)
  show "list_all2 (\<lambda>nr nv. agrees B (snd nr) (snd nv)) R V"
    by (rule list_all2_mono [OF ok]) (auto dest: validate_recipe_agrees)
  have each: "missing_planes (snd nr) = [] \<and> (\<forall>site \<in> set (sites_recipe nr). snd site = {})"
    if "nr \<in> set R" for nr
  proof -
    from that obtain i where "i < length R" "R ! i = nr" by (auto simp: in_set_conv_nth)
    with ok have "validate_recipe B (fst nr) (snd nr) = Inr (snd (V ! i))"
      by (auto simp: list_all2_conv_all_nth)
    from validate_recipe_sites [OF this] show ?thesis by simp
  qed
  then show "\<forall>nr \<in> set R. missing_planes (snd nr) = []" by blast
  from each show "unrecognized_sites R = []"
    by (auto simp: unrecognized_sites_def filter_empty_conv)
qed

lemma validate_all_error:
  assumes "validate_all B R = Inl e"
  shows "(\<exists>nr \<in> set R. \<exists>k \<in> set (missing_planes (snd nr)). e = KeyError k)
       \<or> (\<exists>site \<in> set (unrecognized_sites R).
             e = RuntimeError (unrecognized_message B (fst site) (snd site)))
       \<or> (\<exists>nr \<in> set R. \<exists>plane \<in> set planes. \<exists>ss \<in> set sections. \<exists>kd \<in> set (snd ss). \<exists>raw.
             field_of (snd nr) plane (fst ss) (fst kd) = Some raw \<and>
             construct B (pytype_of (snd kd)) raw = Inl e)"
proof -
  from validate_all_Inl [OF assms] obtain nr where
    nr: "nr \<in> set R" and err: "validate_recipe B (fst nr) (snd nr) = Inl e" by blast
  from validate_recipe_Inl [OF err] show ?thesis
  proof (elim disjE)
    assume "\<exists>k \<in> set (missing_planes (snd nr)). e = KeyError k"
    with nr show ?thesis by blast
  next
    assume "\<exists>site \<in> set (sites_recipe (fst nr, snd nr)). snd site \<noteq> {} \<and>
             e = RuntimeError (unrecognized_message B (fst site) (snd site))"
    then obtain site where site: "site \<in> set (sites_recipe nr)" "snd site \<noteq> {}"
        "e = RuntimeError (unrecognized_message B (fst site) (snd site))"
      by auto
    from site(1,2) nr have "site \<in> set (unrecognized_sites R)"
      by (auto simp: unrecognized_sites_def)
    with site(3) show ?thesis by blast
  next
    assume "\<exists>plane \<in> set planes. \<exists>ss \<in> set sections. \<exists>kd \<in> set (snd ss). \<exists>raw.
             field_of (snd nr) plane (fst ss) (fst kd) = Some raw \<and>
             construct B (pytype_of (snd kd)) raw = Inl e"
    with nr show ?thesis by blast
  qed
qed

lemma coercible_no_error:
  assumes "coercible B R" and "nr \<in> set R" and "plane \<in> set planes"
    and "ss \<in> set sections" and "kd \<in> set (snd ss)"
    and "field_of (snd nr) plane (fst ss) (fst kd) = Some raw"
  shows "construct B (pytype_of (snd kd)) raw \<noteq> Inl e"
proof -
  from assms have "\<not> isl (construct B (pytype_of (snd kd)) raw)"
    by (force simp: coercible_def list_all_iff)
  then show ?thesis by auto
qed

lemma validateWriteRecipes_nonempty:
  "R \<noteq> [] \<Longrightarrow> validateWriteRecipes B (Some R) =
     (case validate_all B R of Inl e \<Rightarrow> Inl e | Inr V \<Rightarrow> Inr (Some V))"
  by (simp add: validateWriteRecipes_def)

subsection \<open>The first failure\<close>

lemma stops_at_Inr: "stops_at (Inr v) [] "
  by (simp add: stops_at_def)

lemma stops_at_Inl: "stops_at (Inl e) (e # es)"
  by (simp add: stops_at_def)

lemma stops_at_bind:
  assumes "stops_at x fs" and "\<And>v. x = Inr v \<Longrightarrow> stops_at (k v) gs"
  shows "stops_at (case x of Inl e \<Rightarrow> Inl e | Inr v \<Rightarrow> k v) (fs @ gs)"
proof (cases fs)
  case Nil
  with assms(1) obtain v where "x = Inr v" by (cases x) (simp_all add: stops_at_def)
  with assms(2) [of v] Nil show ?thesis by simp
next
  case (Cons e es)
  with assms(1) have "x = Inl e" by (simp add: stops_at_def)
  with Cons show ?thesis by (simp add: stops_at_def)
qed

lemma stops_at_map:
  assumes "stops_at x fs"
  shows "stops_at (case x of Inl e \<Rightarrow> Inl e | Inr v \<Rightarrow> Inr (h v)) fs"
  using stops_at_bind [OF assms, of "\<lambda>v. Inr (h v)" "[]"] by (simp add: stops_at_Inr)

lemma stops_at_iff:
  assumes "stops_at x fs"
  shows "x = Inl e \<longleftrightarrow> (\<exists>es. fs = e # es)"
  using assms by (cases fs; cases x) (auto simp: stops_at_def)

lemma stops_at_accepts:
  assumes "stops_at x fs"
  shows "(\<exists>v. x = Inr v) \<longleftrightarrow> fs = []"
  using assms by (cases fs; cases x) (auto simp: stops_at_def)

lemma checkUnrecognized_stops:
  "stops_at (checkUnrecognized B entry allowed d) (unrecognized_failure B entry allowed d)"
  by (simp add: checkUnrecognized_def unrecognized_failure_def stops_at_def Let_def)

lemma field_value_stops:
  "stops_at (field_value B entry key dflt) (field_failure B entry (key, dflt))"
  by (simp add: field_value_def field_failure_def stops_at_def split: option.splits sum.splits)

lemma validate_fields_stops:
  "stops_at (validate_fields B entry schema) (concat (map (field_failure B entry) schema))"
proof (induction schema)
  case Nil
  show ?case by (simp add: stops_at_Inr)
next
  case (Cons kd schema)
  obtain key dflt where kd: "kd = (key, dflt)" by (cases kd)
  have "stops_at (case field_value B entry key dflt of
        Inl e \<Rightarrow> Inl e
      | Inr v \<Rightarrow>
          (case validate_fields B entry schema of
             Inl e \<Rightarrow> Inl e
           | Inr rest \<Rightarrow> Inr ((key, v) # rest)))
     (field_failure B entry (key, dflt) @ concat (map (field_failure B entry) schema))"
    by (intro stops_at_bind field_value_stops stops_at_map Cons.IH)
  then show ?case by (simp add: kd)
qed

lemma validate_settings_stops:
  "stops_at (validate_settings B name plane p (fst ss) (snd ss))
     (settings_failures B name plane p ss)"
proof (cases "map_of p (fst ss)")
  case None
  then show ?thesis by (simp add: validate_settings_def settings_failures_def stops_at_Inr)
next
  case (Some entry)
  have "stops_at (case checkUnrecognized B entry (map fst (snd ss))
                  (name @ ''->'' @ plane @ ''->'' @ fst ss) of
             Inl e \<Rightarrow> Inl e
           | Inr _ \<Rightarrow> validate_fields B entry (snd ss))
     (unrecognized_failure B entry (map fst (snd ss)) (name @ ''->'' @ plane @ ''->'' @ fst ss)
            @ concat (map (field_failure B entry) (snd ss)))"
    by (intro stops_at_bind checkUnrecognized_stops validate_fields_stops)
  with Some show ?thesis by (simp add: validate_settings_def settings_failures_def)
qed

lemma validate_plane_stops:
  "stops_at (validate_plane B name r plane) (plane_failures B name r plane)"
proof (cases "map_of r plane")
  case None
  then show ?thesis by (simp add: validate_plane_def plane_failures_def stops_at_Inl)
next
  case (Some p)
  have c: "stops_at (validate_settings B name plane p ''compression'' compressionSchema)
      (settings_failures B name plane p (''compression'', compressionSchema))"
    using validate_settings_stops [of B name plane p "(''compression'', compressionSchema)"]
    by simp
  have s: "stops_at (validate_settings B name plane p ''scaling'' scalingSchema)
      (settings_failures B name plane p (''scaling'', scalingSchema))"
    using validate_settings_stops [of B name plane p "(''scaling'', scalingSchema)"]
    by simp
  have "stops_at
     (case checkUnrecognized B p [''compression'', ''scaling''] (name @ ''->'' @ plane) of
             Inl e \<Rightarrow> Inl e
           | Inr _ \<Rightarrow>
               (case validate_settings B name plane p ''compression'' compressionSchema of
                  Inl e \<Rightarrow> Inl e
                | Inr c \<Rightarrow>
                    (case validate_settings B name plane p ''scaling'' scalingSchema of
                       Inl e \<Rightarrow> Inl e
                     | Inr s \<Rightarrow> Inr [(''compression'', c), (''scaling'', s)])))
     (unrecognized_failure B p [''compression'', ''scaling''] (name @ ''->'' @ plane)
       @ settings_failures B name plane p (''compression'', compressionSchema)
       @ settings_failures B name plane p (''scaling'', scalingSchema))"
    by (intro stops_at_bind checkUnrecognized_stops c stops_at_map s)
  with Some show ?thesis by (simp add: validate_plane_def plane_failures_def sections_def)
qed

lemma validate_planes_stops:
  "stops_at (validate_planes B name r ps) (concat (map (plane_failures B name r) ps))"
proof (induction ps)
  case Nil
  show ?case by (simp add: stops_at_Inr)
next
  case (Cons plane ps)
  have "stops_at (case validate_plane B name r plane of
        Inl e \<Rightarrow> Inl e
      | Inr np \<Rightarrow>
          (case validate_planes B name r ps of
             Inl e \<Rightarrow> Inl e
           | Inr rest \<Rightarrow> Inr ((plane, np) # rest)))
     (plane_failures B name r plane @ concat (map (plane_failures B name r) ps))"
    by (intro stops_at_bind validate_plane_stops stops_at_map Cons.IH)
  then show ?case by simp
qed

lemma validate_recipe_stops:
  "stops_at (validate_recipe B name r) (recipe_failures B (name, r))"
proof -
  have "stops_at (case checkUnrecognized B r planes name of
        Inl e \<Rightarrow> Inl e
      | Inr _ \<Rightarrow> validate_planes B name r planes)
     (unrecognized_failure B r planes name @ concat (map (plane_failures B name r) planes))"
    by (intro stops_at_bind checkUnrecognized_stops validate_planes_stops)
  then show ?thesis by (simp add: validate_recipe_def recipe_failures_def)
qed

lemma validate_all_stops: "stops_at (validate_all B R) (failures B R)"
proof (induction R)
  case Nil
  show ?case by (simp add: failures_def stops_at_Inr)
next
  case (Cons nr R)
  obtain name r where nr: "nr = (name, r)" by (cases nr)
  have "stops_at (case validate_recipe B name r of
        Inl e \<Rightarrow> Inl e
      | Inr v \<Rightarrow>
          (case validate_all B R of
             Inl e \<Rightarrow> Inl e
           | Inr vs \<Rightarrow> Inr ((name, v) # vs)))
     (recipe_failures B (name, r) @ failures B R)"
    by (intro stops_at_bind validate_recipe_stops stops_at_map Cons.IH)
  then show ?case by (simp add: nr failures_def)
qed

lemma validateWriteRecipes_stops:
  "stops_at (validateWriteRecipes B (Some R)) (failures B R)"
proof (cases "R = []")
  case True
  then show ?thesis by (simp add: validateWriteRecipes_def failures_def stops_at_Inr)
next
  case False
  have "stops_at (case validate_all B R of Inl e \<Rightarrow> Inl e | Inr V \<Rightarrow> Inr (Some V))
     (failures B R)"
    by (intro stops_at_map validate_all_stops)
  with False show ?thesis by (simp add: validateWriteRecipes_def)
qed






lemma missing_plane_failure:
  assumes "nr \<in> set R" and "p \<in> set (missing_planes (snd nr))"
  shows "KeyError p \<in> set (failures B R)"
proof -
  from assms(2) have p: "p \<in> set planes" "map_of (snd nr) p = None"
    by (simp_all add: missing_planes_def)
  then have "KeyError p \<in> set (plane_failures B (fst nr) (snd nr) p)"
    by (simp add: plane_failures_def)
  with p(1) have "KeyError p \<in> set (recipe_failures B nr)"
    by (auto simp: recipe_failures_def)
  with assms(1) show ?thesis by (auto simp: failures_def)
qed

subsection \<open>The examples\<close>

lemmas validate_eval =
  validateWriteRecipes_def validate_recipe_def validate_plane_def validate_settings_def
  checkUnrecognized_def unrecognized_keys_def field_value_def planes_def sections_def
  compressionSchema_def scalingSchema_def Let_def

lemma validate_raw_example:
  "validateWriteRecipes B (Some raw_example) = Inr (Some validated_example)"
  by (simp add: raw_example_def validated_example_def validate_eval)



lemma partial_example_sites: "unrecognized_sites partial_example = []"
    by (simp add: partial_example_def unrecognized_sites_def sites_recipe_def sites_plane_def
        sites_settings_def unrecognized_keys_def planes_def sections_def)

lemma partial_example_coercible: "coercible B partial_example"
  by (simp add: partial_example_def coercible_def field_of_def planes_def sections_def
        compressionSchema_def scalingSchema_def)

lemmas failures_eval =
  failures_def recipe_failures_def plane_failures_def settings_failures_def field_failure_def
  unrecognized_failure_def unrecognized_keys_def planes_def sections_def
  compressionSchema_def scalingSchema_def insert_Diff_if


lemma late_bogus_example_failures:
  "failures B late_bogus_example
     = [KeyError ''mask'', RuntimeError (unrecognized_message B ''r->variance'' {''bogus''})]"
  by (simp add: late_bogus_example_def failures_eval)

lemma first_bogus_failures:
  "failures B [(''r'', [(''bogus'', [])])]
     = [RuntimeError (unrecognized_message B ''r'' {''bogus''}),
        KeyError ''image'', KeyError ''mask'', KeyError ''variance'']"
  by (simp add: failures_eval)

lemma skipped_recipe_failures:
  "failures B [(''a'', []), (''b'', [(''bogus'', [])])]
     = [KeyError ''image'', KeyError ''mask'', KeyError ''variance'',
        RuntimeError (unrecognized_message B ''b'' {''bogus''}),
        KeyError ''image'', KeyError ''mask'', KeyError ''variance'']"
  by (simp add: failures_eval)

subsection \<open>The claims about validation\<close>

text \<open>
  C9. \<open>validateWriteRecipes\<close> applied to \<open>None\<close> and to the empty mapping returns its
  input unchanged, with no error.
\<close>

theorem validateWriteRecipes_empty_identity:
  "validateWriteRecipes B None = Inr None \<and> validateWriteRecipes B (Some []) = Inr (Some [])"
  by (simp add: validateWriteRecipes_def)

text \<open>
  C4. \<open>validateWriteRecipes\<close> is idempotent: whenever it accepts its input (\<open>None\<close>,
  the empty mapping or a mapping of recipes), applying it to the result succeeds and
  returns the same structure.
\<close>

theorem validateWriteRecipes_idempotent:
  "validateWriteRecipes B rs = Inr vs \<Longrightarrow> validateWriteRecipes B vs = Inr vs"
proof (cases rs)
  case None
  assume "validateWriteRecipes B rs = Inr vs"
  with None show ?thesis by (simp add: validateWriteRecipes_def)
next
  case (Some R)
  assume acc: "validateWriteRecipes B rs = Inr vs"
  show ?thesis
  proof (cases "R = []")
    case True
    with acc Some have "vs = Some []" by (simp add: validateWriteRecipes_def)
    then show ?thesis by (simp add: validateWriteRecipes_def)
  next
    case False
    with acc Some obtain V where V: "validate_all B R = Inr V" and vs: "vs = Some V"
      by (cases "validate_all B R") (auto simp: validateWriteRecipes_nonempty)
    from validate_all_result(1) [OF V] have "validate_all B V = Inr V"
      by (rule validate_all_fixed)
    with vs show ?thesis by (simp add: validateWriteRecipes_def)
  qed
qed

text \<open>The raw example is accepted, and validating its normal form again changes nothing.\<close>

theorem validateWriteRecipes_idempotent_witness:
  "\<forall>B. validateWriteRecipes B (Some raw_example) = Inr (Some validated_example) \<and>
       validateWriteRecipes B (Some validated_example) = Inr (Some validated_example)"
  using validateWriteRecipes_idempotent [OF validate_raw_example] validate_raw_example
  by blast





text \<open>
  C10, as stated, fails: a recipe that omits a plane does not always end in \<open>KeyError\<close>.
  The recipe \<open>r\<close> below omits all three planes and has the unrecognized plane
  \<open>bogus\<close>; the check of the plane names runs before any plane is indexed and raises
  the documented \<open>RuntimeError\<close>.
\<close>

theorem validateWriteRecipes_missing_plane_counterexample:
  "(\<forall>B. validateWriteRecipes B (Some [(''r'', [(''bogus'', [])])])
          = Inl (RuntimeError (unrecognized_message B ''r'' {''bogus''}))) \<and>
   missing_planes [(''bogus'', [])] = [''image'', ''mask'', ''variance'']"
  by (simp add: validate_eval missing_planes_def)

lemma validate_missing_plane_parts:
  "((\<exists>nr \<in> set R. missing_planes (snd nr) \<noteq> []) \<longrightarrow>
      (\<exists>e. validateWriteRecipes B (Some R) = Inl e)) \<and>
   (\<forall>k. validateWriteRecipes B (Some R) = Inl (KeyError k) \<longrightarrow>
      (\<exists>nr \<in> set R. k \<in> set (missing_planes (snd nr)))) \<and>
   ((\<exists>nr \<in> set R. missing_planes (snd nr) \<noteq> []) \<and> unrecognized_sites R = [] \<and>
    coercible B R \<longrightarrow>
      (\<exists>nr \<in> set R. \<exists>k \<in> set (missing_planes (snd nr)).
         validateWriteRecipes B (Some R) = Inl (KeyError k)))"
proof (cases "R = []")
  case True
  then show ?thesis by (simp add: validateWriteRecipes_def)
next
  case False
  show ?thesis
  proof (cases "validate_all B R")
    case (Inr V)
    with False have res: "validateWriteRecipes B (Some R) = Inr (Some V)"
      by (simp add: validateWriteRecipes_nonempty)
    from validate_all_result(5) [OF Inr] res show ?thesis by simp
  next
    case (Inl e)
    with False have res: "validateWriteRecipes B (Some R) = Inl e"
      by (simp add: validateWriteRecipes_nonempty)
    have key: "\<exists>nr \<in> set R. k \<in> set (missing_planes (snd nr))" if e: "e = KeyError k" for k
      using validate_all_error [OF Inl]
    proof (elim disjE)
      assume "\<exists>nr \<in> set R. \<exists>k \<in> set (missing_planes (snd nr)). e = KeyError k"
      with e show ?thesis by auto
    next
      assume "\<exists>site \<in> set (unrecognized_sites R).
                e = RuntimeError (unrecognized_message B (fst site) (snd site))"
      with e show ?thesis by auto
    next
      assume "\<exists>nr \<in> set R. \<exists>plane \<in> set planes. \<exists>ss \<in> set sections. \<exists>kd \<in> set (snd ss). \<exists>raw.
               field_of (snd nr) plane (fst ss) (fst kd) = Some raw \<and>
               construct B (pytype_of (snd kd)) raw = Inl e"
      then obtain t v where "construct B t v = Inl e" by blast
      from construct_error_class [OF this] e show ?thesis by auto
    qed
    have only_missing: "\<exists>nr \<in> set R. \<exists>k \<in> set (missing_planes (snd nr)). e = KeyError k"
      if sites: "unrecognized_sites R = []" and co: "coercible B R"
      using validate_all_error [OF Inl]
    proof (elim disjE)
      assume "\<exists>nr \<in> set R. \<exists>k \<in> set (missing_planes (snd nr)). e = KeyError k"
      then show ?thesis .
    next
      assume "\<exists>site \<in> set (unrecognized_sites R).
                e = RuntimeError (unrecognized_message B (fst site) (snd site))"
      with sites show ?thesis by simp
    next
      assume "\<exists>nr \<in> set R. \<exists>plane \<in> set planes. \<exists>ss \<in> set sections. \<exists>kd \<in> set (snd ss). \<exists>raw.
               field_of (snd nr) plane (fst ss) (fst kd) = Some raw \<and>
               construct B (pytype_of (snd kd)) raw = Inl e"
      with coercible_no_error [OF co] show ?thesis by blast
    qed
    from res key only_missing show ?thesis by auto
  qed
qed

text \<open>
  C10, amended. A recipe mapping containing a recipe that omits one of the three planes
  is never accepted: validation fails, and never fills the missing plane with defaults.
  A \<open>KeyError\<close> raised by validation names a plane that some recipe omits. When the
  mapping has no unrecognized key and every raw value can be converted, the failure is
  such a \<open>KeyError\<close>. In general the lookup of every missing plane is one of the
  failing checks, and the error raised is that of the failing check that the traversal
  comes to first: the \<open>KeyError\<close> of the missing plane when nothing fails before its
  lookup, and otherwise the \<open>RuntimeError\<close> of the unrecognized entry or the error of
  the failed conversion that comes before it.
\<close>

theorem validateWriteRecipes_missing_plane:
  "((\<exists>nr \<in> set R. missing_planes (snd nr) \<noteq> []) \<longrightarrow>
      (\<exists>e. validateWriteRecipes B (Some R) = Inl e)) \<and>
   (\<forall>k. validateWriteRecipes B (Some R) = Inl (KeyError k) \<longrightarrow>
      (\<exists>nr \<in> set R. k \<in> set (missing_planes (snd nr)))) \<and>
   ((\<exists>nr \<in> set R. missing_planes (snd nr) \<noteq> []) \<and> unrecognized_sites R = [] \<and>
    coercible B R \<longrightarrow>
      (\<exists>nr \<in> set R. \<exists>k \<in> set (missing_planes (snd nr)).
         validateWriteRecipes B (Some R) = Inl (KeyError k))) \<and>
   (\<forall>nr \<in> set R. \<forall>k \<in> set (missing_planes (snd nr)). KeyError k \<in> set (failures B R)) \<and>
   (\<forall>e. validateWriteRecipes B (Some R) = Inl e \<longleftrightarrow> (\<exists>es. failures B R = e # es))"
    (is "?A \<and> ?K \<and> ?O \<and> ?S \<and> ?F")
proof -
  note parts = validate_missing_plane_parts [of R B]
  have a: ?A using parts by (rule conjunct1)
  have k: ?K using parts by (rule conjunct2 [THEN conjunct1])
  have o: ?O using parts by (rule conjunct2 [THEN conjunct2])
  have s: ?S using missing_plane_failure [of _ R _ B] by (intro ballI)
  have f: ?F using stops_at_iff [OF validateWriteRecipes_stops, of B R] by (intro allI)
  from a k o s f show ?thesis by (intro conjI)
qed

text \<open>
  The recipe without a \<open>mask\<close> plane: validation raises \<open>KeyError('mask')\<close>. So does the
  recipe without \<open>mask\<close> whose \<open>variance\<close> plane has the unrecognized section \<open>bogus\<close>:
  the lookup of \<open>mask\<close> comes first.
\<close>

theorem validateWriteRecipes_missing_plane_witness:
  "(\<forall>B. missing_planes (snd (hd partial_example)) = [''mask''] \<and>
        validateWriteRecipes B (Some partial_example) = Inl (KeyError ''mask'')) \<and>
   (\<forall>B. validateWriteRecipes B (Some late_bogus_example) = Inl (KeyError ''mask''))"
proof (intro allI conjI)
  fix B
  show m: "missing_planes (snd (hd partial_example)) = [''mask'']"
    by (simp add: partial_example_def missing_planes_def planes_def)
  have miss: "\<exists>nr \<in> set partial_example. missing_planes (snd nr) \<noteq> []"
    by (simp add: partial_example_def missing_planes_def planes_def)
  have all: "\<And>nr k. nr \<in> set partial_example \<Longrightarrow> k \<in> set (missing_planes (snd nr))
               \<Longrightarrow> k = ''mask''"
    by (simp add: partial_example_def missing_planes_def planes_def)
  have hyp: "(\<exists>nr \<in> set partial_example. missing_planes (snd nr) \<noteq> []) \<and>
      unrecognized_sites partial_example = [] \<and> coercible B partial_example"
    using miss partial_example_sites partial_example_coercible [of B] by (intro conjI)
  from validateWriteRecipes_missing_plane [of partial_example B] have
    "(\<exists>nr \<in> set partial_example. missing_planes (snd nr) \<noteq> []) \<and>
      unrecognized_sites partial_example = [] \<and> coercible B partial_example \<longrightarrow>
      (\<exists>nr \<in> set partial_example. \<exists>k \<in> set (missing_planes (snd nr)).
         validateWriteRecipes B (Some partial_example) = Inl (KeyError k))"
    by (rule conjunct2 [THEN conjunct2, THEN conjunct1])
  with hyp have "\<exists>nr \<in> set partial_example. \<exists>k \<in> set (missing_planes (snd nr)).
         validateWriteRecipes B (Some partial_example) = Inl (KeyError k)"
    by (rule rev_mp)
  then obtain nr k where "nr \<in> set partial_example" "k \<in> set (missing_planes (snd nr))"
    "validateWriteRecipes B (Some partial_example) = Inl (KeyError k)"
    by blast
  with all [of nr k] show "validateWriteRecipes B (Some partial_example) = Inl (KeyError ''mask'')"
    by simp
next
  fix B
  from validateWriteRecipes_missing_plane [of late_bogus_example B] have
    "\<forall>e. validateWriteRecipes B (Some late_bogus_example) = Inl e
        \<longleftrightarrow> (\<exists>es. failures B late_bogus_example = e # es)"
    by (rule conjunct2 [THEN conjunct2, THEN conjunct2, THEN conjunct2])
  then show "validateWriteRecipes B (Some late_bogus_example) = Inl (KeyError ''mask'')"
    by (simp add: late_bogus_example_failures)
qed

section \<open>Properties of seed derivation\<close>

lemma field_of_set_plane_seed_other:
  "plane \<noteq> q \<Longrightarrow> field_of (set_plane_seed seed plane r) q s k = field_of r q s k"
  by (simp add: field_of_def set_plane_seed_def update_conv' split: option.splits)

lemma field_of_set_plane_seed_same:
  "field_of r plane ''scaling'' ''seed'' = Some v \<Longrightarrow> py_eq_zero v \<Longrightarrow>
   field_of (set_plane_seed seed plane r) plane ''scaling'' ''seed'' = Some (PInt seed)"
  by (auto simp add: field_of_def set_plane_seed_def update_conv' split: option.splits)

lemma field_of_fold_image:
  assumes "field_of r ''image'' ''scaling'' ''seed'' = Some v" and "py_eq_zero v"
  shows "field_of (fold (set_plane_seed seed) planes r) ''image'' ''scaling'' ''seed''
           = Some (PInt seed)"
  using assms
  by (simp add: planes_def field_of_set_plane_seed_other field_of_set_plane_seed_same)

lemma getImageCompressionSettings_selected:
  assumes "map_of W n = Some recipe"
    and "(req = None \<or> req = Some []) \<and> n = ''default'' \<or> req = Some n \<and> n \<noteq> []"
  shows "getImageCompressionSettings hash (Some W) i req =
           Inr (fold (set_plane_seed (derive_seed hash i)) planes recipe,
                Some (AList.update n (fold (set_plane_seed (derive_seed hash i)) planes recipe) W))"
  using assms
  by (auto simp add: getImageCompressionSettings_def select_recipe_def Let_def)

text \<open>
  C1, as stated, fails: the seed that replaces the sentinel is the hash reduced modulo
  \<open>2^31\<close>, which is 0 for a hash that is a multiple of \<open>2^31\<close>. In CPython 3.11 with
  \<open>PYTHONHASHSEED=0\<close> the data id \<open>{"detector": 1, "visit": 331179533}\<close> has
  \<open>hash(tuple(dataId.items())) = 2851557948218408960 = 1327860145 * 2^31\<close>; resolving the
  recipe \<open>{"default": {"image": {"scaling": {"seed": 0}}}}\<close> for it leaves the seed at
  literal 0.
\<close>

theorem seed_substitution_zero_counterexample:
  "getImageCompressionSettings
     (\<lambda>i. if i = [(''detector'', 1), (''visit'', 331179533)]
          then 2851557948218408960 else (1::int))
     (Some [(''default'', [(''image'', [(''scaling'', [(''seed'', PInt 0)])])])])
     [(''detector'', 1::int), (''visit'', 331179533)] None
   = Inr ([(''image'', [(''scaling'', [(''seed'', PInt 0)])])],
          Some [(''default'', [(''image'', [(''scaling'', [(''seed'', PInt 0)])])])])"
  by (simp add: getImageCompressionSettings_def select_recipe_def derive_seed_def planes_def
      set_plane_seed_def Let_def)

text \<open>
  C1, amended. For a recipe whose image-plane scaling seed is the sentinel 0, resolving
  it for write against two data ids (by its name, or as \<open>default\<close> when no name is
  requested) succeeds both times and substitutes, in each resolution, the seed
  \<open>hash(items) mod 2^31\<close> of that resolution's data id: a value in \<open>[0, 2^31)\<close> that
  depends on nothing but the data id, that is 0 exactly when the hash is a multiple of
  \<open>2^31\<close>, and equal data ids give equal results.
\<close>

theorem seed_substitution:
  assumes "map_of W n = Some recipe"
    and "field_of recipe ''image'' ''scaling'' ''seed'' = Some (PInt 0)"
    and "(req = None \<or> req = Some []) \<and> n = ''default'' \<or> req = Some n \<and> n \<noteq> []"
  shows "\<exists>r1 W1 r2 W2.
           getImageCompressionSettings hash (Some W) i1 req = Inr (r1, W1) \<and>
           getImageCompressionSettings hash (Some W) i2 req = Inr (r2, W2) \<and>
           field_of r1 ''image'' ''scaling'' ''seed'' = Some (PInt (derive_seed hash i1)) \<and>
           field_of r2 ''image'' ''scaling'' ''seed'' = Some (PInt (derive_seed hash i2)) \<and>
           0 \<le> derive_seed hash i1 \<and> derive_seed hash i1 < 2 ^ 31 \<and>
           0 \<le> derive_seed hash i2 \<and> derive_seed hash i2 < 2 ^ 31 \<and>
           (derive_seed hash i1 = 0 \<longleftrightarrow> 2 ^ 31 dvd hash i1) \<and>
           (derive_seed hash i2 = 0 \<longleftrightarrow> 2 ^ 31 dvd hash i2) \<and>
           (i1 = i2 \<longrightarrow> r1 = r2 \<and> W1 = W2)"
proof -
  have z: "py_eq_zero (PInt 0)" by simp
  have range: "\<And>i. 0 \<le> derive_seed hash i \<and> derive_seed hash i < 2 ^ 31"
    by (simp add: derive_seed_def)
  have zero: "\<And>i. derive_seed hash i = 0 \<longleftrightarrow> 2 ^ 31 dvd hash i"
    by (simp add: derive_seed_def dvd_eq_mod_eq_0)
  show ?thesis
    unfolding getImageCompressionSettings_selected [OF assms(1) assms(3)]
    using field_of_fold_image [OF assms(2) z] range zero
    by (intro exI conjI) auto
qed

text \<open>
  The recipe of the specification, resolved as the default for two data ids, with a hash
  that adds up the values: the seeds are 903335 and 903336.
\<close>

theorem seed_substitution_witness:
  "map_of [(''default'', [(''image'', [(''scaling'', [(''seed'', PInt 0)])])])] ''default''
     = Some [(''image'', [(''scaling'', [(''seed'', PInt 0)])])] \<and>
   field_of [(''image'', [(''scaling'', [(''seed'', PInt 0)])])] ''image'' ''scaling'' ''seed''
     = Some (PInt 0) \<and>
   (\<exists>r1 W1 r2 W2.
      getImageCompressionSettings (\<lambda>i. sum_list (map snd i))
         (Some [(''default'', [(''image'', [(''scaling'', [(''seed'', PInt 0)])])])])
         [(''detector'', 1::int), (''visit'', 903334)] None = Inr (r1, W1) \<and>
      getImageCompressionSettings (\<lambda>i. sum_list (map snd i))
         (Some [(''default'', [(''image'', [(''scaling'', [(''seed'', PInt 0)])])])])
         [(''detector'', 2::int), (''visit'', 903334)] None = Inr (r2, W2) \<and>
      field_of r1 ''image'' ''scaling'' ''seed'' = Some (PInt 903335) \<and>
      field_of r2 ''image'' ''scaling'' ''seed'' = Some (PInt 903336))"
proof -
  let ?r = "[(''image'', [(''scaling'', [(''seed'', PInt 0)])])]"
  let ?W = "[(''default'', ?r)]"
  have h1: "map_of ?W ''default'' = Some ?r" by simp
  have h2: "field_of ?r ''image'' ''scaling'' ''seed'' = Some (PInt 0)"
    by (simp add: field_of_def)
  have h3: "(None = None \<or> None = Some []) \<and> ''default'' = ''default''
              \<or> None = Some ''default'' \<and> ''default'' \<noteq> []"
    by simp
  from seed_substitution [OF h1 h2 h3, of "\<lambda>i. sum_list (map snd i)"
      "[(''detector'', 1), (''visit'', 903334)]" "[(''detector'', 2), (''visit'', 903334)]"]
  show ?thesis using h1 h2 by (simp add: derive_seed_def)
qed

section \<open>Properties of component dispatch\<close>

text \<open>
  C2 does not hold of the code. For every component name outside the table,
  \<open>readComponent\<close> fails before it reaches its \<open>raise KeyError\<close>: unpacking the \<open>None\<close>
  that \<open>componentMap.get(component, None)\<close> returns raises a \<open>TypeError\<close> whose message
  does not name the component.
\<close>

theorem readComponent_unknown_component:
  "component \<notin> fst ` set componentMap \<Longrightarrow>
   readComponent fd component ps = Inl (TypeError ''cannot unpack non-iterable NoneType object'')"
proof -
  assume "component \<notin> fst ` set componentMap"
  then have "map_of componentMap component = None"
    by (simp add: map_of_eq_None_iff)
  then show ?thesis
    by (simp add: readComponent_def)
qed

text \<open>The component \<open>foo\<close> is not in the table, whatever the descriptor and the parameters.\<close>

theorem readComponent_unknown_component_witness:
  "''foo'' \<notin> fst ` set componentMap \<and>
   (\<forall>fd ps. readComponent fd ''foo'' ps
      = Inl (TypeError ''cannot unpack non-iterable NoneType object''))"
proof -
  have h: "''foo'' \<notin> fst ` set componentMap"
    by (simp add: componentMap_def)
  show ?thesis
    by (intro conjI allI) (rule h, rule readComponent_unknown_component [OF h])
qed

section \<open>Properties of the metadata check\<close>





text \<open>
  With the three header entries present and of the right kinds, \<open>check_metadata\<close> accepts
  exactly when the two triples are equal.
\<close>

lemma check_metadata_accepts_iff:
  assumes "map_of (getMetadata obj) ''INSTRUME'' = Some finst"
    and "map_of (getMetadata obj) ''DETECTOR'' = Some fchip_id"
    and "map_of (getMetadata obj) ''OBSTYPE'' = Some fdata_name"
    and "str_lower finst = Inr finst_lower"
    and "py_int B fchip_id = Inr fchip_int"
    and "str_lower fdata_name = Inr fdata_lower"
  shows "check_metadata B obj valid_start instrument chip_id filepath data_name = Inr ()
         \<longleftrightarrow> (finst_lower, fchip_int, fdata_lower)
               = (lower instrument, PInt chip_id, lower data_name)"
  using assms by (simp add: check_metadata_def split: sum.splits)


text \<open>
  C5 does not hold of the code where a value interpolated into the message contains a
  percent sign. The header says instrument \<open>%s\<close> and detector 7, the path says \<open>HSC\<close> and
  detector 3: the triples differ, and \<open>check_metadata\<close> raises, but the exception is the
  \<open>TypeError\<close> of the \<open>%\<close> operator, which finds two \<open>%s\<close> for one argument; its
  message holds neither triple nor the file path.
\<close>

theorem check_metadata_percent_in_header:
  "check_metadata B
     \<lparr>getMetadata = [(''INSTRUME'', PStr ''%s''), (''DETECTOR'', PInt 7),
                     (''OBSTYPE'', PStr ''defects'')],
      payload = ()\<rparr>
     () ''HSC'' 3 ''/repo/HSC/defects/ccd01/2021-05-01T00:00:00.yaml'' ''defects''
   = Inl (TypeError ''not enough arguments for format string'')"
  by (simp add: check_metadata_def mismatch_template_def py_percent_def show_int_def
      show_nat.simps digit_char_def lower_def lower_char_def)

section \<open>Properties of the calibration loader\<close>

subsection \<open>One turn of the loop\<close>

lemma name_map_detector:
  assumes "name_map cam x = Some n"
  shows "map_of (detectors cam) n \<noteq> None"
proof -
  from assms have "(x, n) \<in> set (rev (map (\<lambda>det. (lower (fst det), fst det)) (detectors cam)))"
    unfolding name_map_def by (rule map_of_SomeD)
  then have "n \<in> fst ` set (detectors cam)" by auto
  then show ?thesis by (simp add: map_of_eq_None_iff)
qed

lemma sensor_result_None: "sensor_result loader cam d = None \<longleftrightarrow> name_map cam (basename d) = None"
  using name_map_detector [of cam "basename d"]
  by (auto simp: sensor_result_def split: option.splits)

lemma read_all_dirs_unknown:
  "name_map cam (basename d) = None \<Longrightarrow>
   read_all_dirs loader B cam (d # dirs) st
     = Inl (RuntimeError (unknown_detector_message cam (basename d)))"
  by (cases st) (simp add: Let_def)

lemma read_all_dirs_failed:
  "sensor_result loader cam d = Some (Inl e) \<Longrightarrow>
   read_all_dirs loader B cam (d # dirs) st = Inl e"
  by (cases st) (auto simp: Let_def sensor_result_def split: option.splits)

lemma read_all_dirs_loaded:
  "sensor_result loader cam d = Some (Inr (data, ct)) \<Longrightarrow>
   read_all_dirs loader B cam (d # dirs) (dbc, cts, c0) =
     (if length (List.insert ct cts) \<noteq> 1
      then Inl (ValueError (''Error mixing calib types: '' @ repr_set B (set (List.insert ct cts))))
      else read_all_dirs loader B cam dirs
             (AList.update (basename d) data dbc, List.insert ct cts, Some ct))"
  by (auto simp: Let_def sensor_result_def split: option.splits)

declare read_all_dirs.simps(2) [simp del]

lemma insert_singleton_length:
  "length cts \<le> 1 \<Longrightarrow> length (List.insert ct cts) = 1 \<longleftrightarrow> cts = [] \<or> cts = [ct]"
  by (cases cts) (auto simp: List.insert_def)

lemma yielded_category_Some:
  "yielded_category loader cam d = Some c \<longleftrightarrow>
     (\<exists>data. sensor_result loader cam d = Some (Inr (data, c)))"
  by (auto simp: yielded_category_def split: option.splits sum.splits)

lemma seen_category_step:
  assumes "yielded_category loader cam p = Some c" and "cts = [] \<or> cts = [c]"
  shows "seen_category loader cam (p # ds) cts x = seen_category loader cam ds [c] x"
  using assms by (auto simp: seen_category_def)

lemma seen_category_Nil:
  assumes "seen_category loader cam [] cts a" and "seen_category loader cam [] cts b"
    and "length cts \<le> 1"
  shows "a = b"
proof -
  from assms(3) have "cts = [] \<or> (\<exists>x. cts = [x])" by (cases cts) auto
  with assms(1,2) show ?thesis by (auto simp: seen_category_def)
qed

lemma seen_category_start:
  "seen_category loader cam ds [] c \<longleftrightarrow> list_ex (\<lambda>d. yielded_category loader cam d = Some c) ds"
  by (simp add: seen_category_def)

subsection \<open>Runs of the loop\<close>

text \<open>A run of sensors that all load with the category \<open>c\<close>.\<close>

lemma read_all_dirs_prefix:
  assumes "\<forall>p \<in> set pre. \<exists>data. sensor_result loader cam p = Some (Inr (data, c)) \<and> P data"
    and "cts = [] \<or> cts = [c]"
    and "\<forall>kv \<in> set dbc. P (snd kv)"
  shows "\<exists>dbc'. (\<forall>kv \<in> set dbc'. P (snd kv)) \<and>
           read_all_dirs loader B cam (pre @ rest) (dbc, cts, c0) =
           read_all_dirs loader B cam rest
             (dbc', if pre = [] then cts else [c], if pre = [] then c0 else Some c)"
  using assms
proof (induction pre arbitrary: dbc cts c0)
  case Nil
  then show ?case by auto
next
  case (Cons p pre)
  from Cons.prems(1) obtain data where
    p: "sensor_result loader cam p = Some (Inr (data, c))" and data: "P data" by auto
  from Cons.prems(2) have ins: "List.insert c cts = [c]" by (auto simp: List.insert_def)
  let ?dbc = "AList.update (basename p) data dbc"
  have step: "read_all_dirs loader B cam ((p # pre) @ rest) (dbc, cts, c0) =
              read_all_dirs loader B cam (pre @ rest) (?dbc, [c], Some c)"
    using read_all_dirs_loaded [OF p, of B "pre @ rest" dbc cts c0] ins by simp
  have inv: "\<forall>kv \<in> set ?dbc. P (snd kv)"
  proof
    fix kv assume "kv \<in> set ?dbc"
    then have "kv = (basename p, data) \<or> kv \<in> set dbc"
      by (induction dbc) (auto split: if_splits)
    with data Cons.prems(3) show "P (snd kv)" by auto
  qed
  from Cons.prems(1) have rest: "\<forall>p \<in> set pre. \<exists>data. sensor_result loader cam p = Some (Inr (data, c)) \<and> P data"
    by simp
  from Cons.IH [OF rest _ inv, of "[c]" "Some c"] obtain dbc' where
    "\<forall>kv \<in> set dbc'. P (snd kv)"
    "read_all_dirs loader B cam (pre @ rest) (?dbc, [c], Some c) =
     read_all_dirs loader B cam rest
       (dbc', if pre = [] then [c] else [c], if pre = [] then Some c else Some c)"
    by auto
  with step show ?case
    by (intro exI [of _ dbc']) simp
qed

text \<open>What a run that returns has seen, and where its data comes from.\<close>

lemma read_all_dirs_returns:
  assumes "read_all_dirs loader B cam dirs (dbc, cts, c0) = Inr (dbc', cts', c0')"
    and "length cts \<le> 1"
  shows "(dirs = [] \<and> dbc' = dbc \<and> cts' = cts \<and> c0' = c0) \<or>
         (\<exists>c. cts' = [c] \<and> c0' = Some c \<and> set cts \<subseteq> {c} \<and>
              (\<forall>d \<in> set dirs. \<exists>data. sensor_result loader cam d = Some (Inr (data, c))))"
  using assms
proof (induction dirs arbitrary: dbc cts c0)
  case Nil
  then show ?case by simp
next
  case (Cons d dirs)
  show ?case
  proof (cases "sensor_result loader cam d")
    case None
    then have "name_map cam (basename d) = None" by (simp add: sensor_result_None)
    from read_all_dirs_unknown [OF this, of loader B dirs "(dbc, cts, c0)"] Cons.prems(1)
    show ?thesis by simp
  next
    case (Some res)
    show ?thesis
    proof (cases res)
      case (Inl e)
      with Some read_all_dirs_failed [of loader cam d e B dirs] Cons.prems(1) show ?thesis by simp
    next
      case (Inr dc)
      obtain data ct where dc: "dc = (data, ct)" by (cases dc)
      with Some Inr have d: "sensor_result loader cam d = Some (Inr (data, ct))" by simp
      from Cons.prems(1) read_all_dirs_loaded [OF d, of B dirs dbc cts c0] have
        len: "length (List.insert ct cts) = 1" and
        run: "read_all_dirs loader B cam dirs
                (AList.update (basename d) data dbc, List.insert ct cts, Some ct)
              = Inr (dbc', cts', c0')"
        by (auto split: if_splits)
      from len Cons.prems(2) have cts: "cts = [] \<or> cts = [ct]"
        using insert_singleton_length [of cts ct] by blast
      then have ins: "List.insert ct cts = [ct]" by (auto simp: List.insert_def)
      from Cons.IH [OF run [unfolded ins]] have
        "(dirs = [] \<and> cts' = [ct] \<and> c0' = Some ct) \<or>
         (\<exists>c. cts' = [c] \<and> c0' = Some c \<and> set [ct] \<subseteq> {c} \<and>
              (\<forall>d \<in> set dirs. \<exists>data. sensor_result loader cam d = Some (Inr (data, c))))"
        by auto
      then have "cts' = [ct] \<and> c0' = Some ct \<and>
              (\<forall>d \<in> set dirs. \<exists>data. sensor_result loader cam d = Some (Inr (data, ct)))"
        by auto
      with d cts show ?thesis by auto
    qed
  qed
qed

lemma read_all_dirs_data:
  assumes "read_all_dirs loader B cam dirs (dbc, cts, c0) = Inr (dbc', cts', c0')"
    and "kv \<in> set dbc'"
  shows "kv \<in> set dbc \<or>
         (\<exists>d \<in> set dirs. \<exists>c. fst kv = basename d \<and>
            sensor_result loader cam d = Some (Inr (snd kv, c)))"
  using assms
proof (induction dirs arbitrary: dbc cts c0)
  case Nil
  then show ?case by simp
next
  case (Cons d dirs)
  show ?case
  proof (cases "sensor_result loader cam d")
    case None
    then have "name_map cam (basename d) = None" by (simp add: sensor_result_None)
    from read_all_dirs_unknown [OF this, of loader B dirs "(dbc, cts, c0)"] Cons.prems(1)
    show ?thesis by simp
  next
    case (Some res)
    show ?thesis
    proof (cases res)
      case (Inl e)
      with Some read_all_dirs_failed [of loader cam d e B dirs "(dbc, cts, c0)"] Cons.prems(1)
      show ?thesis by simp
    next
      case (Inr dc)
      obtain data ct where dc: "dc = (data, ct)" by (cases dc)
      with Some Inr have d: "sensor_result loader cam d = Some (Inr (data, ct))" by simp
      from Cons.prems(1) read_all_dirs_loaded [OF d, of B dirs dbc cts c0] have
        run: "read_all_dirs loader B cam dirs
                (AList.update (basename d) data dbc, List.insert ct cts, Some ct)
              = Inr (dbc', cts', c0')"
        by (auto split: if_splits)
      have upd: "kv = (basename d, data) \<or> kv \<in> set dbc"
        if "kv \<in> set (AList.update (basename d) data dbc)"
        using that by (induction dbc) (auto split: if_splits)
      from Cons.IH [OF run Cons.prems(2)] show ?thesis
      proof
        assume "kv \<in> set (AList.update (basename d) data dbc)"
        from upd [OF this] show ?thesis
        proof
          assume "kv = (basename d, data)"
          with d have "fst kv = basename d \<and> sensor_result loader cam d = Some (Inr (snd kv, ct))"
            by simp
          then show ?thesis by auto
        next
          assume "kv \<in> set dbc"
          then show ?thesis by simp
        qed
      next
        assume "\<exists>d \<in> set dirs. \<exists>c. fst kv = basename d \<and>
            sensor_result loader cam d = Some (Inr (snd kv, c))"
        then show ?thesis by auto
      qed
    qed
  qed
qed

text \<open>A subdirectory that the camera does not know makes every run fail.\<close>

lemma read_all_dirs_unknown_fails:
  assumes "d \<in> set dirs" and "name_map cam (basename d) = None"
  shows "\<exists>e. read_all_dirs loader B cam dirs st = Inl e"
  using assms(1)
proof (induction dirs arbitrary: st)
  case Nil
  then show ?case by simp
next
  case (Cons x dirs)
  obtain dbc cts c0 where st: "st = (dbc, cts, c0)" by (cases st)
  show ?case
  proof (cases "sensor_result loader cam x")
    case None
    then have "name_map cam (basename x) = None" by (simp add: sensor_result_None)
    then show ?thesis by (intro exI) (rule read_all_dirs_unknown)
  next
    case (Some res)
    with assms(2) sensor_result_None [of loader cam d] have "x \<noteq> d" by auto
    with Cons.prems have mem: "d \<in> set dirs" by simp
    show ?thesis
    proof (cases res)
      case (Inl e)
      with Some have "read_all_dirs loader B cam (x # dirs) st = Inl e"
        by (intro read_all_dirs_failed) simp
      then show ?thesis by blast
    next
      case (Inr dc)
      obtain data ct where "dc = (data, ct)" by (cases dc)
      with Some Inr have x: "sensor_result loader cam x = Some (Inr (data, ct))" by simp
      from Cons.IH [OF mem] read_all_dirs_loaded [OF x, of B dirs dbc cts c0] st
      show ?thesis by (cases "length (List.insert ct cts) = 1") auto
    qed
  qed
qed


text \<open>Two distinct categories among the sensors that load stop the run.\<close>

lemma read_all_dirs_mixed:
  assumes "\<forall>p \<in> set ds. yielded_category loader cam p \<noteq> None"
    and "length cts \<le> 1"
    and "seen_category loader cam ds cts c1"
    and "seen_category loader cam ds cts c2"
    and "c1 \<noteq> c2"
  shows "\<exists>a b. a \<noteq> b \<and> seen_category loader cam ds cts a \<and> seen_category loader cam ds cts b \<and>
           read_all_dirs loader B cam (ds @ rest) (dbc, cts, c0)
             = Inl (ValueError (''Error mixing calib types: '' @ repr_set B {a, b}))"
  using assms
proof (induction ds arbitrary: dbc cts c0)
  case Nil
  from seen_category_Nil [OF Nil.prems(3) Nil.prems(4) Nil.prems(2)] Nil.prems(5)
  show ?case by simp
next
  case (Cons p ds)
  from Cons.prems(1) obtain c where yc: "yielded_category loader cam p = Some c" by auto
  then obtain data where p: "sensor_result loader cam p = Some (Inr (data, c))"
    unfolding yielded_category_Some by blast
  note step = read_all_dirs_loaded [OF p, of B "ds @ rest" dbc cts c0]
  show ?case
  proof (cases "cts = [] \<or> cts = [c]")
    case True
    then have ins: "List.insert c cts = [c]" by (auto simp: List.insert_def)
    note K = seen_category_step [OF yc True]
    from Cons.prems(1) have all: "\<forall>p \<in> set ds. yielded_category loader cam p \<noteq> None" by simp
    have len: "length [c] \<le> 1" by simp
    from Cons.prems(3) have m1: "seen_category loader cam ds [c] c1" unfolding K .
    from Cons.prems(4) have m2: "seen_category loader cam ds [c] c2" unfolding K .
    from Cons.IH [OF all len m1 m2 Cons.prems(5), of "AList.update (basename p) data dbc" "Some c"]
    obtain a b where ab: "a \<noteq> b" "seen_category loader cam ds [c] a"
      "seen_category loader cam ds [c] b"
      "read_all_dirs loader B cam (ds @ rest) (AList.update (basename p) data dbc, [c], Some c)
         = Inl (ValueError (''Error mixing calib types: '' @ repr_set B {a, b}))"
      by (elim exE conjE)
    from step ins ab(4) have run: "read_all_dirs loader B cam ((p # ds) @ rest) (dbc, cts, c0)
         = Inl (ValueError (''Error mixing calib types: '' @ repr_set B {a, b}))"
      by simp
    from ab(2) have sa: "seen_category loader cam (p # ds) cts a" unfolding K .
    from ab(3) have sb: "seen_category loader cam (p # ds) cts b" unfolding K .
    from ab(1) sa sb run show ?thesis by (intro exI [of _ a] exI [of _ b] conjI)
  next
    case False
    with Cons.prems(2) obtain x where cts: "cts = [x]" and x: "x \<noteq> c"
      by (cases cts) auto
    then have ins: "List.insert c cts = [c, x]" by (simp add: List.insert_def)
    with step have run: "read_all_dirs loader B cam ((p # ds) @ rest) (dbc, cts, c0)
         = Inl (ValueError (''Error mixing calib types: '' @ repr_set B {c, x}))"
      by simp
    from yc have c: "seen_category loader cam (p # ds) cts c" by (simp add: seen_category_def)
    from cts have "seen_category loader cam (p # ds) cts x" by (simp add: seen_category_def)
    with c x run show ?thesis by (intro exI [of _ c] exI [of _ x] conjI) simp_all
  qed
qed

subsection \<open>\<open>read_one_chip\<close> and \<open>read_all\<close>\<close>

lemma read_one_chip_category:
  "read_one_chip S B rootdir chip_name chip_id = Inr (data, ct) \<Longrightarrow> ct = snd (path_split rootdir)"
  by (auto simp: read_one_chip_def Let_def split: if_splits sum.splits)

lemma read_one_chip_no_files:
  assumes "snd (path_split rootdir) \<in> set factory_names"
    and "glob S (path_join (path_join rootdir chip_name) ''*.ecsv'') = []"
    and "glob S (path_join (path_join rootdir chip_name) ''*.yaml'') = []"
  shows "read_one_chip S B rootdir chip_name chip_id = Inr ([], snd (path_split rootdir))"
  using assms by (simp add: read_one_chip_def Let_def)

lemma read_one_chip_yields:
  assumes "yielded_category (read_one_chip S B rootdir) cam d \<noteq> None"
  shows "\<exists>data. sensor_result (read_one_chip S B rootdir) cam d
           = Some (Inr (data, snd (path_split rootdir)))"
proof -
  from assms obtain c where "yielded_category (read_one_chip S B rootdir) cam d = Some c"
    by auto
  then obtain data where
    r: "sensor_result (read_one_chip S B rootdir) cam d = Some (Inr (data, c))"
    unfolding yielded_category_Some by blast
  then obtain n i where "read_one_chip S B rootdir n i = Inr (data, c)"
    by (auto simp: sensor_result_def split: option.splits)
  from read_one_chip_category [OF this] r show ?thesis by simp
qed

lemma read_all_with_listing:
  assumes "listdir S (normpath S rootdir) = Inr entries"
  shows "read_all_with loader S B rootdir cam =
     (let dirs = subdirs S (normpath S rootdir) entries in
      if dirs = [] then Inl (RuntimeError (''No data found on path '' @ normpath S rootdir))
      else (case read_all_dirs (loader (normpath S rootdir)) B cam dirs ([], [], None) of
              Inl e \<Rightarrow> Inl e
            | Inr (data_by_chip, calib_types, calib_type) \<Rightarrow>
                if list_all (\<lambda>kv. snd kv = []) data_by_chip
                then Inl (RuntimeError ''No data to ingest'')
                else (case calib_type of
                        None \<Rightarrow> Inl (UnboundLocalError ''calib_type'')
                      | Some ct \<Rightarrow> Inr (data_by_chip, ct))))"
  using assms by (simp add: read_all_with_def subdirs_def Let_def)




text \<open>
  The check of the set of categories, for any function that loads one sensor: two
  distinct categories among the subdirectories that load stop \<open>read_all_with\<close>.
\<close>

lemma read_all_with_mixed:
  "listdir S (normpath S rootdir) = Inr entries \<and>
    subdirs S (normpath S rootdir) entries = ds @ post \<and>
    (\<forall>d \<in> set ds. yielded_category (loader (normpath S rootdir)) cam d \<noteq> None) \<and>
    p \<in> set ds \<and> q \<in> set ds \<and>
    yielded_category (loader (normpath S rootdir)) cam p
      \<noteq> yielded_category (loader (normpath S rootdir)) cam q
    \<longrightarrow> (\<exists>a b. a \<noteq> b \<and>
           list_ex (\<lambda>d. yielded_category (loader (normpath S rootdir)) cam d = Some a) ds \<and>
           list_ex (\<lambda>d. yielded_category (loader (normpath S rootdir)) cam d = Some b) ds \<and>
           read_all_with loader S B rootdir cam
             = Inl (ValueError (''Error mixing calib types: '' @ repr_set B {a, b})))"
proof (intro impI)
  let ?L = "loader (normpath S rootdir)"
  assume h: "listdir S (normpath S rootdir) = Inr entries \<and>
    subdirs S (normpath S rootdir) entries = ds @ post \<and>
    (\<forall>d \<in> set ds. yielded_category ?L cam d \<noteq> None) \<and>
    p \<in> set ds \<and> q \<in> set ds \<and>
    yielded_category ?L cam p \<noteq> yielded_category ?L cam q"
  then have listing: "listdir S (normpath S rootdir) = Inr entries"
    and dirs: "subdirs S (normpath S rootdir) entries = ds @ post"
    and all: "\<forall>d \<in> set ds. yielded_category ?L cam d \<noteq> None"
    and p: "p \<in> set ds" and q: "q \<in> set ds"
    and pq: "yielded_category ?L cam p \<noteq> yielded_category ?L cam q"
    by simp_all
  from all p obtain cp where cp: "yielded_category ?L cam p = Some cp" by auto
  from all q obtain cq where cq: "yielded_category ?L cam q = Some cq" by auto
  from cp cq pq have ne: "cp \<noteq> cq" by simp
  from cp p have sp: "seen_category ?L cam ds [] cp"
    by (auto simp: seen_category_start list_ex_iff)
  from cq q have sq: "seen_category ?L cam ds [] cq"
    by (auto simp: seen_category_start list_ex_iff)
  have len: "length ([] :: string list) \<le> 1" by simp
  from read_all_dirs_mixed [OF all len sp sq ne, of B post "[]" None]
  obtain a b where ab: "a \<noteq> b" "seen_category ?L cam ds [] a" "seen_category ?L cam ds [] b"
    "read_all_dirs ?L B cam (ds @ post) ([], [], None)
       = Inl (ValueError (''Error mixing calib types: '' @ repr_set B {a, b}))"
    by (elim exE conjE)
  from p dirs have "subdirs S (normpath S rootdir) entries \<noteq> []" by auto
  with ab(4) dirs have "read_all_with loader S B rootdir cam
       = Inl (ValueError (''Error mixing calib types: '' @ repr_set B {a, b}))"
    by (simp add: read_all_with_listing [OF listing])
  with ab(1) ab(2,3) [unfolded seen_category_start]
  show "\<exists>a b. a \<noteq> b \<and>
           list_ex (\<lambda>d. yielded_category ?L cam d = Some a) ds \<and>
           list_ex (\<lambda>d. yielded_category ?L cam d = Some b) ds \<and>
           read_all_with loader S B rootdir cam
             = Inl (ValueError (''Error mixing calib types: '' @ repr_set B {a, b}))"
    by (intro exI [of _ a] exI [of _ b] conjI)
qed

lemma basename_plain: "CHR ''/'' \<notin> set d \<Longrightarrow> basename d = d"
proof -
  assume "CHR ''/'' \<notin> set d"
  then have "\<forall>x \<in> set (rev d). x \<noteq> CHR ''/''" by auto
  then have "takeWhile (\<lambda>c. c \<noteq> CHR ''/'') (rev d) = rev d"
    by (rule takeWhile_eq_all_conv [THEN iffD2])
  then have "rev (takeWhile (\<lambda>c. c \<noteq> CHR ''/'') (rev d)) = rev (rev d)"
    by (rule arg_cong)
  then show ?thesis by (simp only: basename_def rev_rev_ident)
qed

lemma unknown_detector_message_text:
  "unknown_detector_message cam chip_name =
     ''Detector '' @ chip_name @ '' not known to supplied camera '' @ getName cam
       @ '' ('' @ (if 10 < length (detectors cam) then ''examples'' else ''knows'') @ '': ''
       @ join_str '','' (take 10 (map fst (detectors cam))) @ '')''"
  by (simp add: unknown_detector_message_def Let_def)

subsection \<open>The examples\<close>

lemma test_camera_names:
  "name_map test_camera ''ccd01'' = Some ''CCD01''"
  "name_map test_camera ''ccd02'' = Some ''CCD02''"
  "name_map test_camera ''amp98'' = None"
  "name_map test_camera ''amp99'' = None"
  by (simp_all add: name_map_def test_camera_def lower_def lower_char_def)

lemma big_camera_unknown: "name_map big_camera ''amp99'' = None"
  by (simp add: name_map_def big_camera_def lower_def lower_char_def)

lemma test_basenames:
  "basename ''ccd01'' = ''ccd01''" "basename ''ccd02'' = ''ccd02''"
  "basename ''amp98'' = ''amp98''" "basename ''amp99'' = ''amp99''"
  by (simp_all add: basename_plain)

lemma test_sensor_results:
  "sensor_result loader test_camera ''ccd01'' = Some (loader ''ccd01'' 1)"
  "sensor_result loader test_camera ''ccd02'' = Some (loader ''ccd02'' 2)"
  by (simp_all add: sensor_result_def test_basenames test_camera_names)
     (simp_all add: test_camera_def test_basenames)

lemma test_root_split: "path_split test_root = (''/repo/TestCam'', ''defects'')"
  by (simp add: path_split_def test_root_def Let_def)

lemma test_storage_chip:
  "read_one_chip (test_storage entries) B test_root chip_name chip_id = Inr ([], ''defects'')"
  using read_one_chip_no_files [of test_root "test_storage entries" chip_name B chip_id]
  by (simp add: test_root_split factory_names_def) (simp add: test_storage_def)

lemma test_storage_listing:
  "normpath (test_storage entries) r = r"
  "listdir (test_storage entries) r = Inr entries"
  "subdirs (test_storage entries) r entries = entries"
  by (simp_all add: test_storage_def subdirs_def)

lemma test_storage_listdir:
  "listdir (test_storage entries) (normpath (test_storage entries) r) = Inr entries"
  by (simp add: test_storage_listing)

lemma test_storage_yields:
  "yielded_category (read_one_chip (test_storage es) B test_root) test_camera ''ccd01''
     = Some ''defects''"
  "yielded_category (read_one_chip (test_storage es) B test_root) test_camera ''ccd02''
     = Some ''defects''"
  by (simp_all add: yielded_category_def test_sensor_results test_storage_chip)

lemma file_storage_chip:
  "read_one_chip file_storage B test_root ''ccd01'' 1 = Inr ([(20210501, test_calib)], ''defects'')"
proof -
  have files:
    "glob file_storage (path_join (path_join test_root ''ccd01'') ''*.ecsv'') = []"
    "glob file_storage (path_join (path_join test_root ''ccd01'') ''*.yaml'')
       = [''/repo/TestCam/defects/ccd01/2021-05-01.yaml'']"
    by (simp_all add: file_storage_def path_join_def test_root_def)
  have stem: "fst (splitext file_storage (basename ''/repo/TestCam/defects/ccd01/2021-05-01.yaml''))
               = ''2021-05-01''"
    by (simp add: file_storage_def basename_def)
  have check: "check_metadata B test_calib (20210501 :: nat) ''TestCam'' 1
                 ''/repo/TestCam/defects/ccd01/2021-05-01.yaml'' ''defects'' = Inr ()"
    by (simp add: check_metadata_def test_calib_def)
  have split: "path_split ''/repo/TestCam'' = (''/repo'', ''TestCam'')"
    by (simp add: path_split_def Let_def)
  have parse: "parse_date file_storage ''2021-05-01'' = Inr 20210501"
    and rd: "\<And>c f. readText file_storage c f = Inr test_calib"
    by (simp_all add: file_storage_def)
  have rf: "read_files file_storage B ''TestCam'' 1 ''defects''
          [''/repo/TestCam/defects/ccd01/2021-05-01.yaml''] []
        = Inr [(20210501, test_calib)]"
    by (simp add: stem parse rd check)
  show ?thesis
    by (simp add: read_one_chip_def files test_root_split split factory_names_def rf
        del: read_files.simps)
qed

lemma file_storage_run:
  "read_all file_storage B test_root test_camera
     = Inr ([(''ccd01'', [(20210501, test_calib)])], ''defects'')"
proof -
  have listing: "listdir file_storage (normpath file_storage test_root) = Inr [''ccd01'']"
    by (simp add: file_storage_def)
  have norm: "normpath file_storage test_root = test_root"
    and dirs: "subdirs file_storage test_root [''ccd01''] = [''ccd01'']"
    by (simp_all add: file_storage_def subdirs_def)
  have r: "sensor_result (read_one_chip file_storage B test_root) test_camera ''ccd01''
             = Some (Inr ([(20210501, test_calib)], ''defects''))"
    by (simp add: test_sensor_results file_storage_chip)
  have "read_all_dirs (read_one_chip file_storage B test_root) B test_camera [''ccd01'']
          ([], [], None)
          = Inr ([(''ccd01'', [(20210501, test_calib)])], [''defects''], Some ''defects'')"
    by (simp add: read_all_dirs_loaded [OF r] test_basenames)
  then show ?thesis
    by (simp add: read_all_def read_all_with_listing [OF listing] norm dirs)
qed










lemma amp99_not_named:
  "\<not> sublist ''amp99''
       ''Detector amp98 not known to supplied camera TestCam (knows: CCD01,CCD02)''"
  by code_simp

subsection \<open>The claims about \<open>read_all\<close>\<close>

text \<open>
  C6, as stated, fails: \<open>read_all\<close> stops at the first failure, so a subdirectory that
  the camera does not know is named only if it is the first thing to fail. With the
  subdirectories \<open>amp98\<close> and \<open>amp99\<close>, both unknown, the error names \<open>amp98\<close> and
  the message does not contain \<open>amp99\<close>.
\<close>

theorem read_all_unknown_detector_counterexample:
  "(\<forall>B. read_all (test_storage [''amp98'', ''amp99'']) B test_root test_camera
         = Inl (RuntimeError
             ''Detector amp98 not known to supplied camera TestCam (knows: CCD01,CCD02)'')) \<and>
   \<not> sublist ''amp99''
       ''Detector amp98 not known to supplied camera TestCam (knows: CCD01,CCD02)'' \<and>
   name_map test_camera (basename ''amp99'') = None"
proof (intro conjI allI)
  fix B
  let ?S = "test_storage [''amp98'', ''amp99'']"
  have unknown: "name_map test_camera (basename ''amp98'') = None"
    by (simp add: test_basenames test_camera_names)
  have "read_all_dirs (read_one_chip ?S B test_root) B test_camera [''amp98'', ''amp99'']
          ([], [], None)
        = Inl (RuntimeError (unknown_detector_message test_camera ''amp98''))"
    by (simp only: read_all_dirs_unknown [OF unknown] test_basenames)
  then show "read_all ?S B test_root test_camera
         = Inl (RuntimeError
             ''Detector amp98 not known to supplied camera TestCam (knows: CCD01,CCD02)'')"
    by (simp add: read_all_def read_all_with_listing [OF test_storage_listdir]
        test_storage_listing unknown_detector_message_text test_camera_def)
next
  show "\<not> sublist ''amp99''
       ''Detector amp98 not known to supplied camera TestCam (knows: CCD01,CCD02)''"
    by (rule amp99_not_named)
next
  show "name_map test_camera (basename ''amp99'') = None"
    by (simp add: test_basenames test_camera_names)
qed

text \<open>
  C6, amended. A root directory with an immediate subdirectory whose name does not
  resolve in the camera's lower-cased name table is never loaded: \<open>read_all\<close> raises.
  When every subdirectory listed before it loads, the error is the \<open>RuntimeError\<close> that
  names that subdirectory and the camera's name and lists the first ten known sensor
  names at most, framed as \<open>examples\<close> exactly when the camera has more than ten
  detectors and as \<open>knows\<close> otherwise.
\<close>

theorem read_all_unknown_detector:
  "(listdir S (normpath S rootdir) = Inr entries \<and>
    d \<in> set (subdirs S (normpath S rootdir) entries) \<and>
    name_map cam (basename d) = None
    \<longrightarrow> (\<exists>e. read_all S B rootdir cam = Inl e)) \<and>
   (listdir S (normpath S rootdir) = Inr entries \<and>
    subdirs S (normpath S rootdir) entries = pre @ d # post \<and>
    (\<forall>p \<in> set pre. yielded_category (read_one_chip S B (normpath S rootdir)) cam p \<noteq> None) \<and>
    name_map cam (basename d) = None \<and> CHR ''/'' \<notin> set d
    \<longrightarrow> read_all S B rootdir cam =
          Inl (RuntimeError
            (''Detector '' @ d @ '' not known to supplied camera '' @ getName cam
              @ '' ('' @ (if 10 < length (detectors cam) then ''examples'' else ''knows'') @ '': ''
              @ join_str '','' (take 10 (map fst (detectors cam))) @ '')'')))"
proof (intro conjI impI)
  let ?L = "read_one_chip S B (normpath S rootdir)"
  assume "listdir S (normpath S rootdir) = Inr entries \<and>
    d \<in> set (subdirs S (normpath S rootdir) entries) \<and> name_map cam (basename d) = None"
  then have listing: "listdir S (normpath S rootdir) = Inr entries"
    and mem: "d \<in> set (subdirs S (normpath S rootdir) entries)"
    and unknown: "name_map cam (basename d) = None" by simp_all
  from read_all_dirs_unknown_fails [OF mem unknown, of ?L B "([], [], None)"]
  obtain e where "read_all_dirs ?L B cam (subdirs S (normpath S rootdir) entries) ([], [], None)
      = Inl e" by blast
  moreover from mem have "subdirs S (normpath S rootdir) entries \<noteq> []" by auto
  ultimately have "read_all S B rootdir cam = Inl e"
    by (simp add: read_all_def read_all_with_listing [OF listing])
  then show "\<exists>e. read_all S B rootdir cam = Inl e" by (rule exI)
next
  let ?L = "read_one_chip S B (normpath S rootdir)"
  let ?c = "snd (path_split (normpath S rootdir))"
  assume "listdir S (normpath S rootdir) = Inr entries \<and>
    subdirs S (normpath S rootdir) entries = pre @ d # post \<and>
    (\<forall>p \<in> set pre. yielded_category ?L cam p \<noteq> None) \<and>
    name_map cam (basename d) = None \<and> CHR ''/'' \<notin> set d"
  then have listing: "listdir S (normpath S rootdir) = Inr entries"
    and dirs: "subdirs S (normpath S rootdir) entries = pre @ d # post"
    and pre: "\<forall>p \<in> set pre. yielded_category ?L cam p \<noteq> None"
    and unknown: "name_map cam (basename d) = None"
    and plain: "CHR ''/'' \<notin> set d" by simp_all
  from pre have ok: "\<forall>p \<in> set pre. \<exists>data. sensor_result ?L cam p = Some (Inr (data, ?c)) \<and> True"
    using read_one_chip_yields [of S B "normpath S rootdir" cam] by simp
  have start: "([] :: string list) = [] \<or> [] = [?c]" by simp
  have inv: "\<forall>kv \<in> set ([] :: (string \<times> ('a \<times> 'b calib) list) list). True" by simp
  from read_all_dirs_prefix [OF ok start inv, of B "d # post" None]
  obtain st where
    "read_all_dirs ?L B cam (pre @ d # post) ([], [], None) =
     read_all_dirs ?L B cam (d # post) st"
    by blast
  then have
    "read_all_dirs ?L B cam (pre @ d # post) ([], [], None)
       = Inl (RuntimeError (unknown_detector_message cam (basename d)))"
    by (simp only: read_all_dirs_unknown [OF unknown])
  with dirs have "read_all S B rootdir cam
       = Inl (RuntimeError (unknown_detector_message cam (basename d)))"
    by (simp add: read_all_def read_all_with_listing [OF listing])
  then show "read_all S B rootdir cam =
          Inl (RuntimeError
            (''Detector '' @ d @ '' not known to supplied camera '' @ getName cam
              @ '' ('' @ (if 10 < length (detectors cam) then ''examples'' else ''knows'') @ '': ''
              @ join_str '','' (take 10 (map fst (detectors cam))) @ '')''))"
    by (simp only: unknown_detector_message_text basename_plain [OF plain])
qed

text \<open>
  After \<open>ccd01\<close>, which loads, \<open>amp99\<close> is named with both sensors of the small camera;
  with the camera of twelve detectors the message lists ten of them as examples.
\<close>

theorem read_all_unknown_detector_witness:
  "(\<forall>B. read_all (test_storage [''ccd01'', ''amp99'']) B test_root test_camera
         = Inl (RuntimeError
             ''Detector amp99 not known to supplied camera TestCam (knows: CCD01,CCD02)'')) \<and>
   (\<forall>B. read_all (test_storage [''amp99'']) B test_root big_camera
         = Inl (RuntimeError
             ''Detector amp99 not known to supplied camera BigCam (examples: D00,D01,D02,D03,D04,D05,D06,D07,D08,D09)''))"
proof (intro conjI allI)
  fix B
  let ?S = "test_storage [''ccd01'', ''amp99'']"
  have hyp: "listdir ?S (normpath ?S test_root) = Inr [''ccd01'', ''amp99''] \<and>
    subdirs ?S (normpath ?S test_root) [''ccd01'', ''amp99''] = [''ccd01''] @ ''amp99'' # [] \<and>
    (\<forall>p \<in> set [''ccd01''].
       yielded_category (read_one_chip ?S B (normpath ?S test_root)) test_camera p \<noteq> None) \<and>
    name_map test_camera (basename ''amp99'') = None \<and> CHR ''/'' \<notin> set ''amp99''"
    by (simp add: test_storage_listing test_storage_yields test_basenames test_camera_names)
  from read_all_unknown_detector [of ?S test_root "[''ccd01'', ''amp99'']" "''amp99''"
      test_camera B "[''ccd01'']" "[]"]
  have "listdir ?S (normpath ?S test_root) = Inr [''ccd01'', ''amp99''] \<and>
    subdirs ?S (normpath ?S test_root) [''ccd01'', ''amp99''] = [''ccd01''] @ ''amp99'' # [] \<and>
    (\<forall>p \<in> set [''ccd01''].
       yielded_category (read_one_chip ?S B (normpath ?S test_root)) test_camera p \<noteq> None) \<and>
    name_map test_camera (basename ''amp99'') = None \<and> CHR ''/'' \<notin> set ''amp99''
    \<longrightarrow> read_all ?S B test_root test_camera =
          Inl (RuntimeError
            (''Detector '' @ ''amp99'' @ '' not known to supplied camera '' @ getName test_camera
              @ '' ('' @ (if 10 < length (detectors test_camera) then ''examples'' else ''knows'')
              @ '': '' @ join_str '','' (take 10 (map fst (detectors test_camera))) @ '')''))"
    by (rule conjunct2)
  with hyp have "read_all ?S B test_root test_camera =
          Inl (RuntimeError
            (''Detector '' @ ''amp99'' @ '' not known to supplied camera '' @ getName test_camera
              @ '' ('' @ (if 10 < length (detectors test_camera) then ''examples'' else ''knows'')
              @ '': '' @ join_str '','' (take 10 (map fst (detectors test_camera))) @ '')''))"
    by (rule rev_mp)
  then show "read_all ?S B test_root test_camera
         = Inl (RuntimeError
             ''Detector amp99 not known to supplied camera TestCam (knows: CCD01,CCD02)'')"
    by (simp add: test_camera_def)
next
  fix B
  let ?S = "test_storage [''amp99'']"
  have hyp: "listdir ?S (normpath ?S test_root) = Inr [''amp99''] \<and>
    subdirs ?S (normpath ?S test_root) [''amp99''] = [] @ ''amp99'' # [] \<and>
    (\<forall>p \<in> set [].
       yielded_category (read_one_chip ?S B (normpath ?S test_root)) big_camera p \<noteq> None) \<and>
    name_map big_camera (basename ''amp99'') = None \<and> CHR ''/'' \<notin> set ''amp99''"
    by (simp add: test_storage_listing test_basenames big_camera_unknown)
  from read_all_unknown_detector [of ?S test_root "[''amp99'']" "''amp99''"
      big_camera B "[]" "[]"]
  have "listdir ?S (normpath ?S test_root) = Inr [''amp99''] \<and>
    subdirs ?S (normpath ?S test_root) [''amp99''] = [] @ ''amp99'' # [] \<and>
    (\<forall>p \<in> set [].
       yielded_category (read_one_chip ?S B (normpath ?S test_root)) big_camera p \<noteq> None) \<and>
    name_map big_camera (basename ''amp99'') = None \<and> CHR ''/'' \<notin> set ''amp99''
    \<longrightarrow> read_all ?S B test_root big_camera =
          Inl (RuntimeError
            (''Detector '' @ ''amp99'' @ '' not known to supplied camera '' @ getName big_camera
              @ '' ('' @ (if 10 < length (detectors big_camera) then ''examples'' else ''knows'')
              @ '': '' @ join_str '','' (take 10 (map fst (detectors big_camera))) @ '')''))"
    by (rule conjunct2)
  with hyp have "read_all ?S B test_root big_camera =
          Inl (RuntimeError
            (''Detector '' @ ''amp99'' @ '' not known to supplied camera '' @ getName big_camera
              @ '' ('' @ (if 10 < length (detectors big_camera) then ''examples'' else ''knows'')
              @ '': '' @ join_str '','' (take 10 (map fst (detectors big_camera))) @ '')''))"
    by (rule rev_mp)
  then show "read_all ?S B test_root big_camera
         = Inl (RuntimeError
             ''Detector amp99 not known to supplied camera BigCam (examples: D00,D01,D02,D03,D04,D05,D06,D07,D08,D09)'')"
    by (simp add: big_camera_def)
qed




text \<open>
  C8. \<open>read_all\<close> raises \<open>No data found on path ...\<close> for a root without immediate
  subdirectories and \<open>No data to ingest\<close> when every sensor yields an empty mapping;
  the two messages differ; and whenever it returns, some sensor's subdirectory has
  yielded at least one record, which is in the result under that sensor's name.
\<close>

theorem read_all_no_data:
  "(listdir S (normpath S rootdir) = Inr entries \<and>
    subdirs S (normpath S rootdir) entries = []
    \<longrightarrow> read_all S B rootdir cam
          = Inl (RuntimeError (''No data found on path '' @ normpath S rootdir))) \<and>
   (listdir S (normpath S rootdir) = Inr entries \<and>
    subdirs S (normpath S rootdir) entries \<noteq> [] \<and>
    (\<forall>d \<in> set (subdirs S (normpath S rootdir) entries). \<exists>ct.
        sensor_result (read_one_chip S B (normpath S rootdir)) cam d = Some (Inr ([], ct)))
    \<longrightarrow> read_all S B rootdir cam = Inl (RuntimeError ''No data to ingest'')) \<and>
   ''No data found on path '' @ normpath S rootdir \<noteq> ''No data to ingest'' \<and>
   (\<forall>data ct. read_all S B rootdir cam = Inr (data, ct) \<longrightarrow>
      (\<exists>kv \<in> set data. snd kv \<noteq> [] \<and>
         (\<exists>entries d. listdir S (normpath S rootdir) = Inr entries \<and>
            d \<in> set (subdirs S (normpath S rootdir) entries) \<and> fst kv = basename d \<and>
            sensor_result (read_one_chip S B (normpath S rootdir)) cam d
              = Some (Inr (snd kv, ct)))))"
proof (intro conjI impI allI)
  assume "listdir S (normpath S rootdir) = Inr entries \<and>
    subdirs S (normpath S rootdir) entries = []"
  then show "read_all S B rootdir cam
          = Inl (RuntimeError (''No data found on path '' @ normpath S rootdir))"
    by (simp add: read_all_def read_all_with_listing)
next
  let ?L = "read_one_chip S B (normpath S rootdir)"
  let ?c = "snd (path_split (normpath S rootdir))"
  let ?dirs = "subdirs S (normpath S rootdir) entries"
  assume "listdir S (normpath S rootdir) = Inr entries \<and> ?dirs \<noteq> [] \<and>
    (\<forall>d \<in> set ?dirs. \<exists>ct. sensor_result ?L cam d = Some (Inr ([], ct)))"
  then have listing: "listdir S (normpath S rootdir) = Inr entries"
    and ne: "?dirs \<noteq> []"
    and empty: "\<forall>d \<in> set ?dirs. \<exists>ct. sensor_result ?L cam d = Some (Inr ([], ct))"
    by simp_all
  have ok: "\<forall>d \<in> set ?dirs. \<exists>data. sensor_result ?L cam d = Some (Inr (data, ?c)) \<and> data = []"
  proof
    fix d assume "d \<in> set ?dirs"
    with empty obtain ct where r: "sensor_result ?L cam d = Some (Inr ([], ct))" by blast
    then have "yielded_category ?L cam d \<noteq> None" by (simp add: yielded_category_def)
    from read_one_chip_yields [OF this] r
    show "\<exists>data. sensor_result ?L cam d = Some (Inr (data, ?c)) \<and> data = []" by simp
  qed
  have start: "([] :: string list) = [] \<or> [] = [?c]" by simp
  have inv: "\<forall>kv \<in> set ([] :: (string \<times> ('a \<times> 'b calib) list) list). snd kv = []" by simp
  from read_all_dirs_prefix [OF ok start inv, of B "[]" None]
  obtain dbc' where all: "\<forall>kv \<in> set dbc'. snd kv = []" and
    run: "read_all_dirs ?L B cam (?dirs @ []) ([], [], None) =
          read_all_dirs ?L B cam []
            (dbc', if ?dirs = [] then [] else [?c], if ?dirs = [] then None else Some ?c)"
    by blast
  from run ne have "read_all_dirs ?L B cam ?dirs ([], [], None) = Inr (dbc', [?c], Some ?c)"
    by simp
  with ne all show "read_all S B rootdir cam = Inl (RuntimeError ''No data to ingest'')"
    by (simp add: read_all_def read_all_with_listing [OF listing] list_all_iff)
next
  show "''No data found on path '' @ normpath S rootdir \<noteq> ''No data to ingest''"
    by simp
next
  fix data ct
  let ?L = "read_one_chip S B (normpath S rootdir)"
  assume ret: "read_all S B rootdir cam = Inr (data, ct)"
  then obtain entries where listing: "listdir S (normpath S rootdir) = Inr entries"
    by (cases "listdir S (normpath S rootdir)")
       (simp_all add: read_all_def read_all_with_def Let_def)
  let ?dirs = "subdirs S (normpath S rootdir) entries"
  from ret have ne: "?dirs \<noteq> []"
    by (auto simp: read_all_def read_all_with_listing [OF listing] Let_def split: if_splits)
  from ret ne obtain cts where
    run: "read_all_dirs ?L B cam ?dirs ([], [], None) = Inr (data, cts, Some ct)"
    and some: "\<not> list_all (\<lambda>kv. snd kv = []) data"
    by (auto simp: read_all_def read_all_with_listing [OF listing] Let_def
        split: if_splits sum.splits option.splits)
  from some obtain kv where kv: "kv \<in> set data" "snd kv \<noteq> []"
    by (auto simp: list_all_iff)
  from read_all_dirs_data [OF run kv(1)] obtain d c where
    d: "d \<in> set ?dirs" "fst kv = basename d" "sensor_result ?L cam d = Some (Inr (snd kv, c))"
    by auto
  from read_all_dirs_returns [OF run] ne d(1) obtain dd where
    "sensor_result ?L cam d = Some (Inr (dd, ct))" by auto
  with d(3) have "c = ct" by simp
  with d kv listing show "\<exists>kv \<in> set data. snd kv \<noteq> [] \<and>
         (\<exists>entries d. listdir S (normpath S rootdir) = Inr entries \<and>
            d \<in> set (subdirs S (normpath S rootdir) entries) \<and> fst kv = basename d \<and>
            sensor_result ?L cam d = Some (Inr (snd kv, ct)))"
    by (intro bexI [of _ kv] conjI exI [of _ entries] exI [of _ d]) simp_all
qed

text \<open>
  No subdirectory; two sensors without files; one sensor with one file, for which
  \<open>read_all\<close> returns the record.
\<close>

theorem read_all_no_data_witness:
  "(\<forall>B. read_all (test_storage []) B test_root test_camera
         = Inl (RuntimeError ''No data found on path /repo/TestCam/defects'')) \<and>
   (\<forall>B. read_all (test_storage [''ccd01'', ''ccd02'']) B test_root test_camera
         = Inl (RuntimeError ''No data to ingest'')) \<and>
   (\<forall>B. read_all file_storage B test_root test_camera
         = Inr ([(''ccd01'', [(20210501, test_calib)])], ''defects''))"
proof (intro conjI allI)
  fix B
  let ?S = "test_storage []"
  have hyp: "listdir ?S (normpath ?S test_root) = Inr [] \<and>
    subdirs ?S (normpath ?S test_root) [] = []"
    by (simp add: test_storage_listing)
  from read_all_no_data [of ?S test_root "[]" B test_camera]
  have "listdir ?S (normpath ?S test_root) = Inr [] \<and>
    subdirs ?S (normpath ?S test_root) [] = []
    \<longrightarrow> read_all ?S B test_root test_camera
          = Inl (RuntimeError (''No data found on path '' @ normpath ?S test_root))"
    by (rule conjunct1)
  with hyp have "read_all ?S B test_root test_camera
          = Inl (RuntimeError (''No data found on path '' @ normpath ?S test_root))"
    by (rule rev_mp)
  then show "read_all ?S B test_root test_camera
         = Inl (RuntimeError ''No data found on path /repo/TestCam/defects'')"
    by (simp add: test_storage_listing test_root_def)
next
  fix B
  let ?S = "test_storage [''ccd01'', ''ccd02'']"
  have hyp: "listdir ?S (normpath ?S test_root) = Inr [''ccd01'', ''ccd02''] \<and>
    subdirs ?S (normpath ?S test_root) [''ccd01'', ''ccd02''] \<noteq> [] \<and>
    (\<forall>d \<in> set (subdirs ?S (normpath ?S test_root) [''ccd01'', ''ccd02'']). \<exists>ct.
        sensor_result (read_one_chip ?S B (normpath ?S test_root)) test_camera d
          = Some (Inr ([], ct)))"
    by (simp add: test_storage_listing test_sensor_results test_storage_chip)
  from read_all_no_data [of ?S test_root "[''ccd01'', ''ccd02'']" B test_camera]
  have "listdir ?S (normpath ?S test_root) = Inr [''ccd01'', ''ccd02''] \<and>
    subdirs ?S (normpath ?S test_root) [''ccd01'', ''ccd02''] \<noteq> [] \<and>
    (\<forall>d \<in> set (subdirs ?S (normpath ?S test_root) [''ccd01'', ''ccd02'']). \<exists>ct.
        sensor_result (read_one_chip ?S B (normpath ?S test_root)) test_camera d
          = Some (Inr ([], ct)))
    \<longrightarrow> read_all ?S B test_root test_camera = Inl (RuntimeError ''No data to ingest'')"
    by (rule conjunct2 [THEN conjunct1])
  with hyp show "read_all ?S B test_root test_camera = Inl (RuntimeError ''No data to ingest'')"
    by (rule rev_mp)
next
  fix B
  show "read_all file_storage B test_root test_camera
         = Inr ([(''ccd01'', [(20210501, test_calib)])], ''defects'')"
    by (rule file_storage_run)
qed

end
